theory Spec2Isabelle
  imports Main
begin

section \<open>Strings (package strings, as used by the proxy)\<close>

text \<open>
  Go strings are byte sequences; \<open>string\<close> is a list of 8-bit characters, so a Go string
  is modelled by the list of its (UTF-8) bytes.
\<close>

definition HasPrefix :: "string \<Rightarrow> string \<Rightarrow> bool" where
  "HasPrefix s p = (take (length p) s = p)"

definition TrimPrefix :: "string \<Rightarrow> string \<Rightarrow> string" where
  "TrimPrefix s p = (if HasPrefix s p then drop (length p) s else s)"

text \<open>
  \<open>strings.TrimSpace\<close> removes leading and trailing white space as \<open>unicode.IsSpace\<close>
  defines it: the six ASCII characters, and U+0085, U+00A0, U+1680, U+2000..U+200A,
  U+2028, U+2029, U+202F, U+205F, U+3000, here as their UTF-8 encodings.
\<close>

definition spaceRunes :: "string list" where
  "spaceRunes =
     [[CHR 0x09], [CHR 0x0A], [CHR 0x0B], [CHR 0x0C], [CHR 0x0D], [CHR 0x20],
      [CHR 0xC2, CHR 0x85], [CHR 0xC2, CHR 0xA0], [CHR 0xE1, CHR 0x9A, CHR 0x80],
      [CHR 0xE2, CHR 0x80, CHR 0x80], [CHR 0xE2, CHR 0x80, CHR 0x81],
      [CHR 0xE2, CHR 0x80, CHR 0x82], [CHR 0xE2, CHR 0x80, CHR 0x83],
      [CHR 0xE2, CHR 0x80, CHR 0x84], [CHR 0xE2, CHR 0x80, CHR 0x85],
      [CHR 0xE2, CHR 0x80, CHR 0x86], [CHR 0xE2, CHR 0x80, CHR 0x87],
      [CHR 0xE2, CHR 0x80, CHR 0x88], [CHR 0xE2, CHR 0x80, CHR 0x89],
      [CHR 0xE2, CHR 0x80, CHR 0x8A], [CHR 0xE2, CHR 0x80, CHR 0xA8],
      [CHR 0xE2, CHR 0x80, CHR 0xA9], [CHR 0xE2, CHR 0x80, CHR 0xAF],
      [CHR 0xE2, CHR 0x81, CHR 0x9F], [CHR 0xE3, CHR 0x80, CHR 0x80]]"

text \<open>The number of bytes of the white-space rune that \<open>s\<close> starts with, 0 if there is none.\<close>

definition leadSpace :: "string \<Rightarrow> nat" where
  "leadSpace s = (case find (HasPrefix s) spaceRunes of None \<Rightarrow> 0 | Some q \<Rightarrow> length q)"

lemma leadSpace_Nil: "leadSpace [] = 0"
  by (simp add: leadSpace_def spaceRunes_def HasPrefix_def)

function TrimLeftSpace :: "string \<Rightarrow> string" where
  "TrimLeftSpace s = (if leadSpace s = 0 then s else TrimLeftSpace (drop (leadSpace s) s))"
  by pat_completeness auto
termination
proof (relation "measure length")
  show "wf (measure (length :: string \<Rightarrow> nat))" by simp
next
  fix s :: string
  assume a: "leadSpace s \<noteq> 0"
  then have "s \<noteq> []" using leadSpace_Nil by auto
  with a show "(drop (leadSpace s) s, s) \<in> measure length" by simp
qed

declare TrimLeftSpace.simps [simp del]

definition HasSuffix :: "string \<Rightarrow> string \<Rightarrow> bool" where
  "HasSuffix s q = (length q \<le> length s \<and> drop (length s - length q) s = q)"

definition trailSpace :: "string \<Rightarrow> nat" where
  "trailSpace s = (case find (HasSuffix s) spaceRunes of None \<Rightarrow> 0 | Some q \<Rightarrow> length q)"

lemma trailSpace_Nil: "trailSpace [] = 0"
  by (simp add: trailSpace_def spaceRunes_def HasSuffix_def)

function TrimRightSpace :: "string \<Rightarrow> string" where
  "TrimRightSpace s =
     (if trailSpace s = 0 then s else TrimRightSpace (take (length s - trailSpace s) s))"
  by pat_completeness auto
termination
proof (relation "measure length")
  show "wf (measure (length :: string \<Rightarrow> nat))" by simp
next
  fix s :: string
  assume a: "trailSpace s \<noteq> 0"
  then have "s \<noteq> []" using trailSpace_Nil by auto
  with a show "(take (length s - trailSpace s) s, s) \<in> measure length" by simp
qed

declare TrimRightSpace.simps [simp del]

definition TrimSpace :: "string \<Rightarrow> string" where
  "TrimSpace s = TrimRightSpace (TrimLeftSpace s)"


section \<open>HTTP headers (net/http.Header)\<close>

text \<open>
  A header is a map from (canonical) names to lists of values. The names the proxy passes
  (\<open>Authorization\<close>, \<open>X-Project\<close>, \<open>Content-Type\<close>, ...) are canonical already, and so
  are the names of a parsed upstream response.
\<close>

type_synonym Header = "string \<rightharpoonup> string list"

definition header_Get :: "Header \<Rightarrow> string \<Rightarrow> string" where
  "header_Get h k = (case h k of None \<Rightarrow> [] | Some [] \<Rightarrow> [] | Some (v # _) \<Rightarrow> v)"

definition header_Set :: "Header \<Rightarrow> string \<Rightarrow> string \<Rightarrow> Header" where
  "header_Set h k v = h(k \<mapsto> [v])"

definition header_Add :: "Header \<Rightarrow> string \<Rightarrow> string \<Rightarrow> Header" where
  "header_Add h k v = h(k \<mapsto> (case h k of None \<Rightarrow> [] | Some vs \<Rightarrow> vs) @ [v])"

definition header_Del :: "Header \<Rightarrow> string \<Rightarrow> Header" where
  "header_Del h k = h(k := None)"

section \<open>Storage (db.go)\<close>

text \<open>
  The four tables of the schema. \<open>usage.ts\<close> is assigned by the store at insert time and
  is left out. \<open>faults\<close> is the environment of the connection: every statement the code
  executes takes the next entry, and \<open>True\<close> makes that statement fail (disk, lock,
  interrupt); when the list is used up no statement fails for an outside reason.
  \<open>poolClosed\<close> makes \<open>pool.Get\<close> fail.
\<close>

record db =
  users :: "(int \<times> string \<times> string) list"
  projects :: "(int \<times> int \<times> string) list"
  models :: "(int \<times> string) list"
  usage :: "(int \<times> int \<times> int) list"
  faults :: "bool list"
  poolClosed :: bool

datatype error = StorageError | ForeignKeyError | ReadError | TransportError string

text \<open>One statement handed to \<open>sqlitex.ExecuteTransient\<close>: does the environment fail it?\<close>

definition ExecuteTransient :: "db \<Rightarrow> bool \<times> db" where
  "ExecuteTransient c =
     (case faults c of [] \<Rightarrow> (False, c) | f # fs \<Rightarrow> (f, c\<lparr>faults := fs\<rparr>))"

text \<open>
  The rowid of a new row of a table with an \<open>INTEGER PRIMARY KEY\<close>: one more than the
  largest rowid in use, 1 in an empty table. This is the engine's rule as long as the
  largest rowid is below \<open>2^63 - 1\<close>; at that rowid the engine tries unused rowids at
  random, a state that takes \<open>2^63 - 1\<close> inserts to reach from the empty tables of the
  schema, since the program never gives a rowid of its own.
\<close>

definition newRowid :: "int list \<Rightarrow> int" where
  "newRowid ids = (if ids = [] then 1 else Max (set ids) + 1)"

text \<open>\<open>SELECT id, name FROM users WHERE KEY = :apiKey\<close>\<close>

definition selectUser :: "db \<Rightarrow> string \<Rightarrow> (int \<times> string) list" where
  "selectUser c apiKey = map (\<lambda>(i, n, k). (i, n)) (filter (\<lambda>(i, n, k). k = apiKey) (users c))"

text \<open>
  \<open>findUserByKey\<close>: the result function runs once per row and overwrites the three
  variables, so the last row stands; without a row they keep their zero values.
\<close>

definition findUserByKey :: "db \<Rightarrow> string \<Rightarrow> (error + int \<times> string \<times> bool) \<times> db" where
  "findUserByKey c apiKey =
     (case ExecuteTransient c of
        (True, c1) \<Rightarrow> (Inl StorageError, c1)
      | (False, c1) \<Rightarrow>
          (Inr (fold (\<lambda>(i, n) _. (i, n, True)) (selectUser c1 apiKey) (0, [], False)), c1))"

text \<open>
  \<open>INSERT OR IGNORE INTO projects (user_id, name)\<close>: a row with the same (user, name) makes
  the insert a no-op; otherwise the foreign key on \<open>users(id)\<close> is checked (foreign keys
  are switched on for every connection) and the row is added.
\<close>

definition insertProject :: "db \<Rightarrow> int \<Rightarrow> string \<Rightarrow> error + db" where
  "insertProject c userID name =
     (if (userID, name) \<in> set (map snd (projects c)) then Inr c
      else if userID \<notin> set (map fst (users c)) then Inl ForeignKeyError
      else Inr (c\<lparr>projects := projects c @ [(newRowid (map fst (projects c)), userID, name)]\<rparr>))"

definition selectProject :: "db \<Rightarrow> int \<Rightarrow> string \<Rightarrow> int list" where
  "selectProject c userID name = map fst (filter (\<lambda>(i, u, n). u = userID \<and> n = name) (projects c))"

definition getProjectID :: "db \<Rightarrow> int \<Rightarrow> string \<Rightarrow> (error + int) \<times> db" where
  "getProjectID c userID projectName =
     (case ExecuteTransient c of
        (True, c1) \<Rightarrow> (Inl StorageError, c1)
      | (False, c1) \<Rightarrow>
          (case insertProject c1 userID projectName of
             Inl e \<Rightarrow> (Inl e, c1)
           | Inr c2 \<Rightarrow>
               (case ExecuteTransient c2 of
                  (True, c3) \<Rightarrow> (Inl StorageError, c3)
                | (False, c3) \<Rightarrow>
                    (Inr (fold (\<lambda>i _. i) (selectProject c3 userID projectName) 0), c3))))"

text \<open>\<open>INSERT OR IGNORE INTO models (name)\<close>, then \<open>SELECT id FROM models WHERE name = :name\<close>\<close>

definition insertModel :: "db \<Rightarrow> string \<Rightarrow> db" where
  "insertModel c name =
     (if name \<in> set (map snd (models c)) then c
      else c\<lparr>models := models c @ [(newRowid (map fst (models c)), name)]\<rparr>)"

definition selectModel :: "db \<Rightarrow> string \<Rightarrow> int list" where
  "selectModel c name = map fst (filter (\<lambda>(i, n). n = name) (models c))"

definition getModelID :: "db \<Rightarrow> string \<Rightarrow> (error + int) \<times> db" where
  "getModelID c modelName =
     (case ExecuteTransient c of
        (True, c1) \<Rightarrow> (Inl StorageError, c1)
      | (False, c1) \<Rightarrow>
          (case ExecuteTransient (insertModel c1 modelName) of
             (True, c3) \<Rightarrow> (Inl StorageError, c3)
           | (False, c3) \<Rightarrow> (Inr (fold (\<lambda>i _. i) (selectModel c3 modelName) 0), c3)))"

text \<open>
  \<open>saveUsage\<close>: one insert inside a savepoint; the row must reference an existing model
  and an existing project. On an error the savepoint is rolled back: nothing is added.
\<close>

definition saveUsage :: "db \<Rightarrow> int \<Rightarrow> int \<Rightarrow> int \<Rightarrow> error option \<times> db" where
  "saveUsage c modelID projectID tokensUsage =
     (case ExecuteTransient c of
        (True, c1) \<Rightarrow> (Some StorageError, c1)
      | (False, c1) \<Rightarrow>
          (if modelID \<in> set (map fst (models c1)) \<and> projectID \<in> set (map fst (projects c1))
           then (None, c1\<lparr>usage := usage c1 @ [(modelID, projectID, tokensUsage)]\<rparr>)
           else (Some ForeignKeyError, c1)))"


section \<open>Request and response bodies (encoding/json)\<close>

record message =
  Content :: string

text \<open>The chat-style request body.\<close>

record completionRequestBody =
  Model :: string
  Messages :: "message list"
  Suffix :: string
  Stream :: bool

text \<open>The prompt-style request body (the second variant of the proxy).\<close>

record promptRequestBody =
  pModel :: string
  Prompt :: string
  pSuffix :: string
  pStream :: bool

record usageField =
  TotalTokens :: int

record completionResponseBody =
  Usage :: usageField

record delta =
  dContent :: string

record choice =
  Delta :: delta

record completionResponseStreamedBody =
  Choices :: "choice list"

text \<open>
  A parsed JSON text. A number literal of integer form is \<open>JInt\<close>; one with a fraction or
  an exponent is \<open>JFloat\<close>, kept as text. The members of an object are in the order of the
  text, duplicates included.
\<close>

datatype json =
  JNull
| JBool bool
| JInt int
| JFloat string
| JString string
| JArray "json list"
| JObject "(string \<times> json) list"

text \<open>
  How the decoder matches a member name \<open>t\<close> of the text against a field name \<open>s\<close> that
  is ASCII and has a letter k or s in it (\<open>equalFoldRight\<close>): letters match in either case,
  every other byte exactly, and the Kelvin sign and the long s stand for k and s.
\<close>

definition isLetter :: "char \<Rightarrow> bool" where
  "isLetter c =
     ((65 \<le> (of_char c :: nat) \<and> (of_char c :: nat) \<le> 90) \<or>
      (97 \<le> (of_char c :: nat) \<and> (of_char c :: nat) \<le> 122))"

definition caseMask :: "char \<Rightarrow> nat" where
  "caseMask c = (of_char c :: nat) - (if ((of_char c :: nat) div 32) mod 2 = 1 then 32 else 0)"

fun equalFoldRight :: "string \<Rightarrow> string \<Rightarrow> bool" where
  "equalFoldRight [] t = (t = [])"
| "equalFoldRight (sb # s) [] = False"
| "equalFoldRight (sb # s) (tb # t) =
     (if (of_char tb :: nat) < 128 then
        (if sb = tb then equalFoldRight s t
         else if isLetter sb \<and> caseMask sb = caseMask tb then equalFoldRight s t
         else False)
      else if sb = CHR ''s'' \<or> sb = CHR ''S'' then
        (case t of
           t1 # t' \<Rightarrow> tb = CHR 0xC5 \<and> t1 = CHR 0xBF \<and> equalFoldRight s t'
         | [] \<Rightarrow> False)
      else if sb = CHR ''k'' \<or> sb = CHR ''K'' then
        (case t of
           t1 # t2 # t' \<Rightarrow> tb = CHR 0xE2 \<and> t1 = CHR 0x84 \<and> t2 = CHR 0xAA \<and> equalFoldRight s t'
         | _ \<Rightarrow> False)
      else False)"

text \<open>
  Decoding into \<open>completionResponseBody\<close>. \<open>null\<close> leaves the target as it is; an object
  is decoded member by member, in order, into the fields its names match (so a later
  duplicate overwrites what an earlier one set); any other value for a struct, and
  anything but an integer literal in the range of a 64-bit \<open>int\<close> (or \<open>null\<close>) for
  \<open>TotalTokens\<close>, is an \<open>UnmarshalTypeError\<close>. The decoder goes on after such an error
  and returns it at the end; the proxy only looks at whether there was one (\<open>None\<close>).
\<close>

definition decodeInt :: "json \<Rightarrow> int \<Rightarrow> int option" where
  "decodeInt j cur =
     (case j of
        JNull \<Rightarrow> Some cur
      | JInt n \<Rightarrow> (if - (2 ^ 63) \<le> n \<and> n < 2 ^ 63 then Some n else None)
      | _ \<Rightarrow> None)"

fun decodeUsageMembers :: "(string \<times> json) list \<Rightarrow> usageField \<Rightarrow> usageField option" where
  "decodeUsageMembers [] u = Some u"
| "decodeUsageMembers ((k, v) # kvs) u =
     (if equalFoldRight ''total_tokens'' k then
        (case decodeInt v (TotalTokens u) of
           None \<Rightarrow> None
         | Some n \<Rightarrow> decodeUsageMembers kvs (u\<lparr>TotalTokens := n\<rparr>))
      else decodeUsageMembers kvs u)"

definition decodeUsage :: "json \<Rightarrow> usageField \<Rightarrow> usageField option" where
  "decodeUsage j u =
     (case j of JNull \<Rightarrow> Some u | JObject kvs \<Rightarrow> decodeUsageMembers kvs u | _ \<Rightarrow> None)"

fun decodeResponseMembers ::
  "(string \<times> json) list \<Rightarrow> completionResponseBody \<Rightarrow> completionResponseBody option" where
  "decodeResponseMembers [] b = Some b"
| "decodeResponseMembers ((k, v) # kvs) b =
     (if equalFoldRight ''Usage'' k then
        (case decodeUsage v (Usage b) of
           None \<Rightarrow> None
         | Some u \<Rightarrow> decodeResponseMembers kvs (b\<lparr>Usage := u\<rparr>))
      else decodeResponseMembers kvs b)"

definition zeroResponseBody :: completionResponseBody where
  "zeroResponseBody = \<lparr>Usage = \<lparr>TotalTokens = 0\<rparr>\<rparr>"

definition decodeResponseBody :: "json \<Rightarrow> completionResponseBody option" where
  "decodeResponseBody j =
     (case j of
        JNull \<Rightarrow> Some zeroResponseBody
      | JObject kvs \<Rightarrow> decodeResponseMembers kvs zeroResponseBody
      | _ \<Rightarrow> None)"

section \<open>The collaborators of a call\<close>

text \<open>The upstream's answer: status, headers, and the body stream, which delivers
  \<open>Body\<close> and then ends, with EOF or (\<open>BodyErr\<close>) with a read error.\<close>

record response =
  StatusCode :: nat
  RespHeader :: "(string \<times> string list) list"
  Body :: string
  BodyErr :: bool

record outRequest =
  oURL :: string
  oHeader :: Header
  oBody :: string

type_synonym codec = "string \<Rightarrow> nat list option"

text \<open>
  What the call depends on and the repository does not define: the JSON parser and the
  decoders of the two other body shapes (\<open>None\<close>: \<open>json.Unmarshal\<close> returns an error), the
  tokenizers by model name (\<open>tokenizer.ForModel\<close>; a codec's \<open>Encode\<close> returns the token
  ids or fails), and the upstream behind \<open>client.Do\<close>.
\<close>

record env =
  parseJSON :: "string \<Rightarrow> json option"
  unmarshalRequest :: "string \<Rightarrow> completionRequestBody option"
  unmarshalPromptRequest :: "string \<Rightarrow> promptRequestBody option"
  unmarshalStreamed :: "string \<Rightarrow> completionResponseStreamedBody option"
  ForModel :: "string \<Rightarrow> codec option"
  clientDo :: "outRequest \<Rightarrow> string + response"

definition unmarshalResponse :: "env \<Rightarrow> string \<Rightarrow> completionResponseBody option" where
  "unmarshalResponse e bytes =
     (case parseJSON e bytes of None \<Rightarrow> None | Some j \<Rightarrow> decodeResponseBody j)"

record request =
  Method :: string
  RawQuery :: string
  ReqHeader :: Header
  ReqBody :: string
  ReqBodyErr :: bool

section \<open>The response writer and the trace of a call\<close>

text \<open>
  What the call does to its collaborators, in order. \<open>EStatus\<close> is the status line (with
  the headers as they are at that moment) being committed to the client; \<open>EWrite\<close> is body
  bytes passed to \<open>Write\<close>.
\<close>

datatype event =
  EPoolGet
| EFindUser string
| EGetProject int string
| EGetModel string
| ESaveUsage int int int
| EReadRequestBody
| EUnmarshalRequest string
| EForModel string
| EEncode string
| EClientDo
| EStatus nat
| EInformational nat
| EWrite string
| EFlush
| EReadAll
| EReadString string
| EReadFail
| EUnmarshal string
| EPanic
| EExit

text \<open>
  \<open>http.ResponseWriter\<close>: the header map the handler edits; whether the header is
  committed, with which status and which headers; \<open>wbody\<close>, the body bytes the handler has
  passed to \<open>Write\<close>, call after call; \<open>accepted\<close>, those of them for which \<open>Write\<close>
  returned no error, the only ones that go to the client of a POST call (for a HEAD call
  the server takes them and sends none; the relay runs for POST calls only);
  \<open>written\<close>, the server's count of body bytes against \<open>contentLength\<close>, the length
  declared by the committed header. \<open>isFlusher\<close>: the writer implements \<open>http.Flusher\<close>.
\<close>

record writer =
  hdr :: Header
  wroteHeader :: bool
  status :: nat
  sentHeader :: Header
  wbody :: string
  isFlusher :: bool
  accepted :: string
  written :: nat
  contentLength :: "nat option"

record world =
  st_db :: db
  st_w :: writer
  trace :: "event list"

definition emit :: "event \<Rightarrow> world \<Rightarrow> world" where
  "emit e wd = wd\<lparr>trace := trace wd @ [e]\<rparr>"

definition setHeader :: "string \<Rightarrow> string \<Rightarrow> world \<Rightarrow> world" where
  "setHeader k v wd = wd\<lparr>st_w := (st_w wd)\<lparr>hdr := header_Set (hdr (st_w wd)) k v\<rparr>\<rparr>"

text \<open>
  \<open>bodyAllowedForStatus\<close> of net/http: no body goes with a 1xx, a 204 or a 304 answer.
\<close>

definition bodyAllowedForStatus :: "nat \<Rightarrow> bool" where
  "bodyAllowedForStatus c = (\<not> (100 \<le> c \<and> c \<le> 199) \<and> c \<noteq> 204 \<and> c \<noteq> 304)"

text \<open>
  \<open>strconv.ParseInt(s, 10, 64)\<close>: an optional sign, then one decimal digit or more and
  nothing else; a value outside 64 bits is an error.
\<close>

fun digits :: "string \<Rightarrow> nat \<Rightarrow> nat option" where
  "digits [] acc = Some acc"
| "digits (c # cs) acc =
     (if 48 \<le> (of_char c :: nat) \<and> (of_char c :: nat) \<le> 57
      then digits cs (10 * acc + ((of_char c :: nat) - 48))
      else None)"

definition ParseInt :: "string \<Rightarrow> int option" where
  "ParseInt s =
     (if s = [] then None
      else let neg = (hd s = CHR ''-'');
               ds = (if hd s = CHR ''+'' \<or> hd s = CHR ''-'' then tl s else s)
           in if ds = [] then None
              else case digits ds 0 of
                     None \<Rightarrow> None
                   | Some n \<Rightarrow>
                       if neg then (if n \<le> 2 ^ 63 then Some (- int n) else None)
                       else (if n < 2 ^ 63 then Some (int n) else None))"

text \<open>
  The length the header map declares when the header is committed: the first value of
  \<open>Content-Length\<close>, when it parses to a number that is not negative. A value that does
  not is logged and deleted from the handler's map, and declares nothing.
\<close>

definition declaredLength :: "Header \<Rightarrow> nat option" where
  "declaredLength h =
     (let cl = header_Get h ''Content-Length''
      in if cl = [] then None
         else case ParseInt cl of
                None \<Rightarrow> None
              | Some v \<Rightarrow> if 0 \<le> v then Some (nat v) else None)"

definition checkedLength :: "Header \<Rightarrow> Header" where
  "checkedLength h =
     (if header_Get h ''Content-Length'' \<noteq> [] \<and> declaredLength h = None
      then header_Del h ''Content-Length'' else h)"

text \<open>A body of \<open>n\<close> bytes is no longer than the length the header map declares.\<close>

definition fitsDeclared :: "Header \<Rightarrow> nat \<Rightarrow> bool" where
  "fitsDeclared h n = (case declaredLength h of None \<Rightarrow> True | Some d \<Rightarrow> n \<le> d)"

text \<open>
  \<open>WriteHeader\<close> for a code in 100..999 (any other code panics, see \<open>relayResponse\<close>).
  Once the header is committed a further call changes nothing (the server only logs
  that it is superfluous), and so does a later change of the header map. An informational
  code other than 101 is sent at once and commits nothing.
\<close>

definition WriteHeader :: "nat \<Rightarrow> world \<Rightarrow> world" where
  "WriteHeader code wd =
     (if wroteHeader (st_w wd) then wd
      else if 100 \<le> code \<and> code \<le> 199 \<and> code \<noteq> 101 then emit (EInformational code) wd
      else emit (EStatus code)
             (wd\<lparr>st_w := (st_w wd)\<lparr>wroteHeader := True, status := code,
                                     sentHeader := hdr (st_w wd),
                                     contentLength := declaredLength (hdr (st_w wd)),
                                     hdr := checkedLength (hdr (st_w wd))\<rparr>\<rparr>))"

text \<open>
  What \<open>Write\<close> does with bytes once the header is committed. No bytes: nothing. A
  status that allows no body: \<open>ErrBodyNotAllowed\<close>, nothing is counted and nothing goes
  out. Otherwise the bytes are counted, and when the count passes the declared length the
  call returns \<open>ErrContentLength\<close> and none of its bytes goes out.
\<close>

definition writtenAfter :: "string \<Rightarrow> writer \<Rightarrow> nat" where
  "writtenAfter bytes w =
     (if bytes \<noteq> [] \<and> bodyAllowedForStatus (status w) then written w + length bytes
      else written w)"

definition acceptedBytes :: "string \<Rightarrow> writer \<Rightarrow> string" where
  "acceptedBytes bytes w =
     (if bodyAllowedForStatus (status w) \<and>
         (case contentLength w of None \<Rightarrow> True | Some n \<Rightarrow> written w + length bytes \<le> n)
      then bytes else [])"

text \<open>
  A write or a flush before the header is committed commits it with status 200. The
  handlers log or drop the error of a write; \<open>wbody\<close> keeps what they passed, \<open>accepted\<close>
  what the server took.
\<close>

definition Write :: "string \<Rightarrow> world \<Rightarrow> world" where
  "Write bytes wd =
     (let wd1 = (if wroteHeader (st_w wd) then wd else WriteHeader 200 wd)
      in emit (EWrite bytes)
           (wd1\<lparr>st_w := (st_w wd1)\<lparr>wbody := wbody (st_w wd1) @ bytes,
                                     accepted := accepted (st_w wd1) @ acceptedBytes bytes (st_w wd1),
                                     written := writtenAfter bytes (st_w wd1)\<rparr>\<rparr>))"

definition Flush :: "world \<Rightarrow> world" where
  "Flush wd =
     (let wd1 = (if wroteHeader (st_w wd) then wd else WriteHeader 200 wd)
      in emit EFlush wd1)"

text \<open>\<open>http.Error\<close>: two headers, the status, and the message with a newline.\<close>

definition http_Error :: "string \<Rightarrow> nat \<Rightarrow> world \<Rightarrow> world" where
  "http_Error msg code wd =
     Write (msg @ [CHR 0x0A])
       (WriteHeader code
         (setHeader ''X-Content-Type-Options'' ''nosniff''
           (setHeader ''Content-Type'' ''text/plain; charset=utf-8'' wd)))"

text \<open>The storage calls of the handler, on the world.\<close>

definition doFindUserByKey :: "string \<Rightarrow> world \<Rightarrow> (error + int \<times> string \<times> bool) \<times> world" where
  "doFindUserByKey apiKey wd =
     (case findUserByKey (st_db wd) apiKey of
        (r, c) \<Rightarrow> (r, emit (EFindUser apiKey) (wd\<lparr>st_db := c\<rparr>)))"

definition doGetProjectID :: "int \<Rightarrow> string \<Rightarrow> world \<Rightarrow> (error + int) \<times> world" where
  "doGetProjectID userID name wd =
     (case getProjectID (st_db wd) userID name of
        (r, c) \<Rightarrow> (r, emit (EGetProject userID name) (wd\<lparr>st_db := c\<rparr>)))"

definition doGetModelID :: "string \<Rightarrow> world \<Rightarrow> (error + int) \<times> world" where
  "doGetModelID name wd =
     (case getModelID (st_db wd) name of
        (r, c) \<Rightarrow> (r, emit (EGetModel name) (wd\<lparr>st_db := c\<rparr>)))"

text \<open>The call of \<open>saveUsage\<close> in the relay: an error is logged and nothing else.\<close>

definition doSaveUsage :: "int \<Rightarrow> int \<Rightarrow> int \<Rightarrow> world \<Rightarrow> world" where
  "doSaveUsage modelID projectID n wd =
     (case saveUsage (st_db wd) modelID projectID n of
        (r, c) \<Rightarrow> emit (ESaveUsage modelID projectID n) (wd\<lparr>st_db := c\<rparr>))"


section \<open>The streaming relay (proxySSEResponse)\<close>

text \<open>
  \<open>bufio.Reader.ReadString('\n')\<close> on the rest of the upstream body: the bytes up to and
  with the first newline, and what is left; \<open>None\<close> when the body ends before a newline
  (the reader then returns what it has together with an error).
\<close>

definition ReadString :: "string \<Rightarrow> (string \<times> string) option" where
  "ReadString rd =
     (let r = dropWhile (\<lambda>c. c \<noteq> CHR 0x0A) rd
      in if r = [] then None
         else Some (takeWhile (\<lambda>c. c \<noteq> CHR 0x0A) rd @ [CHR 0x0A], tl r))"

lemma ReadString_shorter: "ReadString rd = Some (line, rd') \<Longrightarrow> length rd' < length rd"
proof -
  assume a: "ReadString rd = Some (line, rd')"
  let ?r = "dropWhile (\<lambda>c. c \<noteq> CHR 0x0A) rd"
  from a have ne: "?r \<noteq> []" and rd': "rd' = tl ?r"
    by (auto simp: ReadString_def Let_def split: if_splits)
  have "length ?r \<le> length rd" by (rule length_dropWhile_le)
  moreover from ne have "length (tl ?r) < length ?r" by (cases ?r) auto
  ultimately show ?thesis using rd' by simp
qed

text \<open>
  The inner loop (lines 105-123): read a line, write it to the client and flush, and
  only then look at it; a bare newline ends the message, a line that starts with
  \<open>data:\<close> adds its trimmed payload to the message. A failed read ends the relay.
  The result is the message and the rest of the body.
\<close>

function readMessage :: "string \<Rightarrow> string \<Rightarrow> world \<Rightarrow> (string \<times> string) option \<times> world" where
  "readMessage rd msg wd =
     (case ReadString rd of
        None \<Rightarrow> (None, http_Error ''failed to read response'' 502 (emit EReadFail wd))
      | Some (line, rd') \<Rightarrow>
          (let wd1 = Flush (Write line (emit (EReadString line) wd))
           in if line = [CHR 0x0A] then (Some (msg, rd'), wd1)
              else readMessage rd'
                     (if HasPrefix line ''data:'' then msg @ TrimSpace (drop 5 line) else msg)
                     wd1))"
  by pat_completeness auto
termination
  by (relation "measure (\<lambda>(rd, msg, wd). length rd)") (auto dest: ReadString_shorter)

declare readMessage.simps [simp del]

lemma readMessage_shorter:
  "readMessage rd msg wd = (Some (m, rd'), wd') \<Longrightarrow> length rd' < length rd"
proof (induction rd msg wd rule: readMessage.induct)
  case (1 rd msg wd)
  show ?case
  proof (cases "ReadString rd")
    case None
    with "1.prems" show ?thesis by (simp add: readMessage.simps [of rd])
  next
    case (Some p)
    obtain line r where p: "p = (line, r)" by (cases p)
    have sh: "length r < length rd" using Some p by (auto dest: ReadString_shorter)
    show ?thesis
    proof (cases "line = [CHR 0x0A]")
      case True
      with "1.prems" Some p sh show ?thesis
        by (simp add: readMessage.simps [of rd] Let_def)
    next
      case False
      with "1.prems" Some p have
        "readMessage r (if HasPrefix line ''data:'' then msg @ TrimSpace (drop 5 line) else msg)
           (Flush (Write line (emit (EReadString line) wd))) = (Some (m, rd'), wd')"
        by (simp add: readMessage.simps [of rd] Let_def)
      with "1.IH" [OF Some p [symmetric] refl False] have "length rd' < length r" by simp
      with sh show ?thesis by simp
    qed
  qed
qed

text \<open>
  The outer loop (lines 103-150). \<open>[DONE]\<close> ends it with the running total; any other
  message must decode to exactly one choice, whose delta content is tokenized and counted.
\<close>

function sseLoop :: "env \<Rightarrow> codec \<Rightarrow> string \<Rightarrow> int \<Rightarrow> world \<Rightarrow> int option \<times> world" where
  "sseLoop e tk rd nTokens wd =
     (case readMessage rd [] wd of
        (None, wd1) \<Rightarrow> (None, wd1)
      | (Some (msg, rd'), wd1) \<Rightarrow>
          (if msg = ''[DONE]'' then (Some nTokens, wd1)
           else
             (let wd2 = emit (EUnmarshal msg) wd1 in
              case unmarshalStreamed e msg of
                None \<Rightarrow> (None, http_Error ''failed to unmarshal response'' 502 wd2)
              | Some respBody \<Rightarrow>
                  (if length (Choices respBody) \<noteq> 1
                   then (None, http_Error ''0 or more than 1 choices in response'' 502 wd2)
                   else
                     (let content = dContent (Delta (hd (Choices respBody)));
                          wd3 = emit (EEncode content) wd2
                      in case tk content of
                           None \<Rightarrow> (None, http_Error ''failed to tokenize message'' 502 wd3)
                         | Some ids \<Rightarrow> sseLoop e tk rd' (nTokens + int (length ids)) wd3)))))"
  by pat_completeness auto
termination
  by (relation "measure (\<lambda>(e, tk, rd, n, wd). length rd)")
     (auto dest: readMessage_shorter [OF sym])

declare sseLoop.simps [simp del]

text \<open>Tokenizing the prompt (lines 88-97): every message content, in order.\<close>

fun tokenizeMessages :: "codec \<Rightarrow> message list \<Rightarrow> int \<Rightarrow> world \<Rightarrow> int option \<times> world" where
  "tokenizeMessages tk [] nTokens wd = (Some nTokens, wd)"
| "tokenizeMessages tk (m # ms) nTokens wd =
     (let wd1 = emit (EEncode (Content m)) wd
      in case tk (Content m) of
           None \<Rightarrow> (None, http_Error ''failed to tokenize prompt'' 502 wd1)
         | Some ids \<Rightarrow> tokenizeMessages tk ms (nTokens + int (length ids)) wd1)"

definition proxySSEResponse ::
  "env \<Rightarrow> world \<Rightarrow> response \<Rightarrow> int \<Rightarrow> int \<Rightarrow> completionRequestBody \<Rightarrow> codec \<Rightarrow> world" where
  "proxySSEResponse e wd resp projectID modelID crb tk =
     (if \<not> isFlusher (st_w wd) then http_Error ''Streaming setup failed'' 500 wd
      else
        (let wd1 = Flush (WriteHeader 200
                     (setHeader ''Connection'' ''keep-alive''
                       (setHeader ''Cache-Control'' ''no-cache''
                         (setHeader ''Content-Type'' ''text/event-stream'' wd))))
         in case tokenizeMessages tk (Messages crb) 0 wd1 of
              (None, wd2) \<Rightarrow> wd2
            | (Some nTokens, wd2) \<Rightarrow>
                (case sseLoop e tk (Body resp) nTokens wd2 of
                   (None, wd3) \<Rightarrow> wd3
                 | (Some n, wd3) \<Rightarrow> doSaveUsage modelID projectID n wd3)))"

section \<open>The buffered relay (proxyPlainResponse)\<close>

definition ReadAll :: "string \<Rightarrow> bool \<Rightarrow> string option" where
  "ReadAll bytes err = (if err then None else Some bytes)"

definition proxyPlainResponse :: "env \<Rightarrow> world \<Rightarrow> response \<Rightarrow> int \<Rightarrow> int \<Rightarrow> world" where
  "proxyPlainResponse e wd resp projectID modelID =
     (let wd1 = emit EReadAll wd in
      case ReadAll (Body resp) (BodyErr resp) of
        None \<Rightarrow> http_Error ''failed to read response'' 502 wd1
      | Some responseBody \<Rightarrow>
          (let wd2 = emit (EUnmarshal responseBody) wd1 in
           case unmarshalResponse e responseBody of
             None \<Rightarrow> http_Error ''failed to parse response'' 502 wd2
           | Some crespb \<Rightarrow>
               Write responseBody
                 (doSaveUsage modelID projectID (TotalTokens (Usage crespb)) wd2)))"


section \<open>The orchestrator (proxyRequest)\<close>

text \<open>
  Lines 276-282: for every header name of the upstream response, delete the name from
  the response headers and add the upstream's values one by one. (The list is the
  upstream's header map in the order the loop visits it.)
\<close>

definition copyHeader :: "(string \<times> string list) list \<Rightarrow> Header \<Rightarrow> Header" where
  "copyHeader rh h =
     fold (\<lambda>(k, vs) h'. fold (\<lambda>v h''. header_Add h'' k v) vs (header_Del h' k)) rh h"

text \<open>\<open>io.Copy(w, resp.Body)\<close>: the bytes the body delivers are passed to \<open>Write\<close> as they
  are; a body that delivers nothing causes no write. The copy goes chunk by chunk and
  stops at the first refused chunk; one \<open>Write\<close> stands for it, which is the same whenever
  the body is no longer than the length the header declares (the transport never
  delivers more than the upstream declared).\<close>

definition io_Copy :: "string \<Rightarrow> world \<Rightarrow> world" where
  "io_Copy bytes wd = (if bytes = [] then wd else Write bytes wd)"

text \<open>
  Lines 276-298, the relay of the upstream's answer: headers, status, and then one of the
  three bodies. \<open>WriteHeader\<close> panics on a status outside 100..999 when no header is
  committed yet; the handler ends there.
\<close>

definition relayResponse ::
  "env \<Rightarrow> world \<Rightarrow> response \<Rightarrow> int \<Rightarrow> int \<Rightarrow> completionRequestBody \<Rightarrow> codec \<Rightarrow> world" where
  "relayResponse e wd resp projectID modelID crb tk =
     (let wd1 = wd\<lparr>st_w := (st_w wd)\<lparr>hdr := copyHeader (RespHeader resp) (hdr (st_w wd))\<rparr>\<rparr>
      in if \<not> wroteHeader (st_w wd1) \<and> (StatusCode resp < 100 \<or> 999 < StatusCode resp)
         then emit EPanic wd1
         else
           (let wd2 = WriteHeader (StatusCode resp) wd1
            in if StatusCode resp \<noteq> 200 then io_Copy (Body resp) wd2
               else if Stream crb then proxySSEResponse e wd2 resp projectID modelID crb tk
               else proxyPlainResponse e wd2 resp projectID modelID))"

definition projectLabel :: "request \<Rightarrow> string" where
  "projectLabel r =
     (if header_Get (ReqHeader r) ''X-Project'' = [] then ''<default>''
      else header_Get (ReqHeader r) ''X-Project'')"

definition requestKey :: "request \<Rightarrow> string" where
  "requestKey r = TrimPrefix (header_Get (ReqHeader r) ''Authorization'') ''Bearer ''"

definition upstreamRequest :: "string \<Rightarrow> request \<Rightarrow> string \<Rightarrow> outRequest" where
  "upstreamRequest key r requestBody =
     \<lparr>oURL = ''https://api.openai.com/v1/chat/completions'',
      oHeader = header_Set (ReqHeader r) ''Authorization'' (''Bearer '' @ key),
      oBody = requestBody\<rparr>"

text \<open>
  The chat-style handler. \<open>key\<close> is the deployment's upstream credential. When the pool
  gives no connection the process exits (\<open>mustGetDB\<close>).
\<close>

definition proxyRequest :: "env \<Rightarrow> string \<Rightarrow> request \<Rightarrow> world \<Rightarrow> world" where
  "proxyRequest e key r wd =
     (if Method r \<noteq> ''POST'' then http_Error ''Only POST requests are supported'' 400 wd
      else if RawQuery r \<noteq> [] then http_Error ''Query parameters are not supported'' 400 wd
      else if poolClosed (st_db wd) then emit EExit wd
      else
        (case doFindUserByKey (requestKey r) (emit EPoolGet wd) of
           (Inl err, wd1) \<Rightarrow> http_Error ''Failed to find user'' 500 wd1
         | (Inr (userID, userName, userFound), wd1) \<Rightarrow>
             (if \<not> userFound then http_Error ''Invalid API key'' 401 wd1
              else
                (case doGetProjectID userID (projectLabel r) wd1 of
                   (Inl err, wd2) \<Rightarrow> http_Error ''failed to find project'' 500 wd2
                 | (Inr projectID, wd2) \<Rightarrow>
                     (let wd3 = emit EReadRequestBody wd2 in
                      case ReadAll (ReqBody r) (ReqBodyErr r) of
                        None \<Rightarrow> http_Error ''failed to read request body'' 500 wd3
                      | Some requestBody \<Rightarrow>
                          (let wd4 = emit (EUnmarshalRequest requestBody) wd3 in
                           case unmarshalRequest e requestBody of
                             None \<Rightarrow> http_Error ''failed to parse request body'' 400 wd4
                           | Some crb \<Rightarrow>
                               (let wd5 = emit (EForModel (Model crb)) wd4 in
                                case ForModel e (Model crb) of
                                  None \<Rightarrow>
                                    http_Error (''failed to find model '' @ Model crb) 400 wd5
                                | Some tk \<Rightarrow>
                                    (case doGetModelID (Model crb) wd5 of
                                       (Inl err, wd6) \<Rightarrow>
                                         http_Error (''failed to get model '' @ Model crb) 500 wd6
                                     | (Inr modelID, wd6) \<Rightarrow>
                                         (let wd7 = emit EClientDo wd6 in
                                          case clientDo e (upstreamRequest key r requestBody) of
                                            Inl err \<Rightarrow>
                                              http_Error
                                                (''Failed to read response from OpenAI: '' @ err)
                                                502 wd7
                                          | Inr resp \<Rightarrow>
                                              relayResponse e wd7 resp projectID modelID crb
                                                tk)))))))))"

text \<open>
  The prompt-style handler (the second \<open>proxyRequest\<close>). It differs in the body shape,
  in refusing a streaming request after decoding, and in relaying without a streaming
  path; its 200 branch (lines 468-495 of its file) is the text of \<open>proxyPlainResponse\<close>.
\<close>

definition relayPromptResponse :: "env \<Rightarrow> world \<Rightarrow> response \<Rightarrow> int \<Rightarrow> int \<Rightarrow> world" where
  "relayPromptResponse e wd resp projectID modelID =
     (let wd1 = wd\<lparr>st_w := (st_w wd)\<lparr>hdr := copyHeader (RespHeader resp) (hdr (st_w wd))\<rparr>\<rparr>
      in if \<not> wroteHeader (st_w wd1) \<and> (StatusCode resp < 100 \<or> 999 < StatusCode resp)
         then emit EPanic wd1
         else
           (let wd2 = WriteHeader (StatusCode resp) wd1
            in if StatusCode resp = 200 then proxyPlainResponse e wd2 resp projectID modelID
               else io_Copy (Body resp) wd2))"

definition proxyRequestPrompt :: "env \<Rightarrow> string \<Rightarrow> request \<Rightarrow> world \<Rightarrow> world" where
  "proxyRequestPrompt e key r wd =
     (if Method r \<noteq> ''POST'' then http_Error ''Only POST requests are supported'' 400 wd
      else if RawQuery r \<noteq> [] then http_Error ''Query parameters are not supported'' 400 wd
      else if poolClosed (st_db wd) then emit EExit wd
      else
        (case doFindUserByKey (requestKey r) (emit EPoolGet wd) of
           (Inl err, wd1) \<Rightarrow> http_Error ''Failed to find user'' 500 wd1
         | (Inr (userID, userName, userFound), wd1) \<Rightarrow>
             (if \<not> userFound then http_Error ''Invalid API key'' 401 wd1
              else
                (case doGetProjectID userID (projectLabel r) wd1 of
                   (Inl err, wd2) \<Rightarrow> http_Error ''failed to find project'' 500 wd2
                 | (Inr projectID, wd2) \<Rightarrow>
                     (let wd3 = emit EReadRequestBody wd2 in
                      case ReadAll (ReqBody r) (ReqBodyErr r) of
                        None \<Rightarrow> http_Error ''failed to read request body'' 500 wd3
                      | Some requestBody \<Rightarrow>
                          (let wd4 = emit (EUnmarshalRequest requestBody) wd3 in
                           case unmarshalPromptRequest e requestBody of
                             None \<Rightarrow> http_Error ''failed to parse request body'' 400 wd4
                           | Some crb \<Rightarrow>
                               (if pStream crb
                                then http_Error ''streaming responses are not yet supported''
                                       400 wd4
                                else
                                  (let wd5 = emit (EForModel (pModel crb)) wd4 in
                                   case ForModel e (pModel crb) of
                                     None \<Rightarrow>
                                       http_Error (''failed to find model '' @ pModel crb) 400 wd5
                                   | Some tk \<Rightarrow>
                                       (case doGetModelID (pModel crb) wd5 of
                                          (Inl err, wd6) \<Rightarrow>
                                            http_Error (''failed to get model '' @ pModel crb)
                                              500 wd6
                                        | (Inr modelID, wd6) \<Rightarrow>
                                            (let wd7 = emit EClientDo wd6 in
                                             case clientDo e (upstreamRequest key r requestBody) of
                                               Inl err \<Rightarrow>
                                                 http_Error
                                                   (''Failed to read response from OpenAI: ''
                                                      @ err)
                                                   502 wd7
                                             | Inr resp \<Rightarrow>
                                                 relayPromptResponse e wd7 resp projectID
                                                   modelID))))))))))"


section \<open>A sample deployment\<close>

text \<open>
  One user, \<open>alice\<close> with the key \<open>abc\<close>; a new response writer; a byte-level tokenizer
  for the model \<open>gpt-x\<close>; a parser and decoders that know the texts used below.
\<close>

definition newWriter :: "bool \<Rightarrow> writer" where
  "newWriter fl = \<lparr>hdr = Map.empty, wroteHeader = False, status = 0, sentHeader = Map.empty,
     wbody = [], isFlusher = fl, accepted = [], written = 0, contentLength = None\<rparr>"

definition handlerEntry :: "db \<Rightarrow> world" where
  "handlerEntry c = \<lparr>st_db = c, st_w = newWriter True, trace = []\<rparr>"

definition aliceDb :: db where
  "aliceDb = \<lparr>users = [(1, ''alice'', ''abc'')], projects = [], models = [], usage = [],
     faults = [], poolClosed = False\<rparr>"

definition sampleParse :: "string \<Rightarrow> json option" where
  \<open>sampleParse s =
     (if s = ''{"usage":{"total_tokens":7}}''
      then Some (JObject [(''usage'', JObject [(''total_tokens'', JInt 7)])])
      else if s = ''{"id":"cmpl-1"}'' then Some (JObject [(''id'', JString ''cmpl-1'')])
      else if s = ''[]'' then Some (JArray [])
      else None)\<close>

definition chatBody :: string where
  \<open>chatBody = ''{"model":"gpt-x","messages":[{"content":"hi"}],"stream":false}''\<close>

definition chatStreamBody :: string where
  \<open>chatStreamBody = ''{"model":"gpt-x","messages":[{"content":"hi"}],"stream":true}''\<close>

definition sampleUnmarshalRequest :: "string \<Rightarrow> completionRequestBody option" where
  "sampleUnmarshalRequest s =
     (if s = chatBody
      then Some \<lparr>Model = ''gpt-x'', Messages = [\<lparr>Content = ''hi''\<rparr>], Suffix = [], Stream = False\<rparr>
      else if s = chatStreamBody
      then Some \<lparr>Model = ''gpt-x'', Messages = [\<lparr>Content = ''hi''\<rparr>], Suffix = [], Stream = True\<rparr>
      else None)"

definition promptStreamBody :: string where
  \<open>promptStreamBody = ''{"model":"gpt-x","prompt":"hi","stream":true}''\<close>

definition sampleUnmarshalPrompt :: "string \<Rightarrow> promptRequestBody option" where
  "sampleUnmarshalPrompt s =
     (if s = promptStreamBody
      then Some \<lparr>pModel = ''gpt-x'', Prompt = ''hi'', pSuffix = [], pStream = True\<rparr>
      else None)"

definition deltaHello :: string where
  \<open>deltaHello = ''{"choices":[{"delta":{"content":"Hello"}}]}''\<close>

definition sampleUnmarshalStreamed :: "string \<Rightarrow> completionResponseStreamedBody option" where
  "sampleUnmarshalStreamed s =
     (if s = deltaHello then Some \<lparr>Choices = [\<lparr>Delta = \<lparr>dContent = ''Hello''\<rparr>\<rparr>]\<rparr> else None)"

definition byteCodec :: codec where
  "byteCodec s = Some (map of_char s)"

definition sampleEnv :: "response \<Rightarrow> env" where
  "sampleEnv resp =
     \<lparr>parseJSON = sampleParse,
      unmarshalRequest = sampleUnmarshalRequest,
      unmarshalPromptRequest = sampleUnmarshalPrompt,
      unmarshalStreamed = sampleUnmarshalStreamed,
      ForModel = (\<lambda>m. if m = ''gpt-x'' then Some byteCodec else None),
      clientDo = (\<lambda>req. Inr resp)\<rparr>"

definition noResponse :: response where
  "noResponse = \<lparr>StatusCode = 200, RespHeader = [], Body = [], BodyErr = False\<rparr>"

definition aliceRequest :: "string \<Rightarrow> string \<Rightarrow> request" where
  "aliceRequest query body =
     \<lparr>Method = ''POST'', RawQuery = query,
      ReqHeader = [''Authorization'' \<mapsto> [''Bearer abc'']],
      ReqBody = body, ReqBodyErr = False\<rparr>"

lemmas writer_defs = http_Error_def Write_def WriteHeader_def Flush_def emit_def setHeader_def

section \<open>Reading a trace\<close>

definition writes :: "event list \<Rightarrow> string list" where
  "writes evs = concat (map (\<lambda>ev. case ev of EWrite b \<Rightarrow> [b] | _ \<Rightarrow> []) evs)"

definition newEvents :: "world \<Rightarrow> world \<Rightarrow> event list" where
  "newEvents wd wd' = drop (length (trace wd)) (trace wd')"

text \<open>The status lines a trace commits.\<close>

definition statuses :: "event list \<Rightarrow> nat list" where
  "statuses evs = concat (map (\<lambda>ev. case ev of EStatus c \<Rightarrow> [c] | _ \<Rightarrow> []) evs)"

text \<open>
  A stretch of a call after the header is committed, for the proofs: the status and the
  headers sent stay, the store is not touched, no status line is committed again, and the
  client's body grows by what the stretch writes.
\<close>

definition continues :: "world \<Rightarrow> world \<Rightarrow> event list \<Rightarrow> bool" where
  "continues wd wd' evs =
     (wroteHeader (st_w wd') \<and> status (st_w wd') = status (st_w wd) \<and>
      sentHeader (st_w wd') = sentHeader (st_w wd) \<and>
      isFlusher (st_w wd') = isFlusher (st_w wd) \<and>
      st_db wd' = st_db wd \<and>
      trace wd' = trace wd @ evs \<and>
      statuses evs = [] \<and>
      wbody (st_w wd') = wbody (st_w wd) @ concat (writes evs))"

lemma statuses_simps [simp]:
  "statuses [] = []"
  "statuses (ev # evs) = (case ev of EStatus c \<Rightarrow> [c] | _ \<Rightarrow> []) @ statuses evs"
  "statuses (xs @ ys) = statuses xs @ statuses ys"
  by (simp_all add: statuses_def)

lemma writes_simps [simp]:
  "writes [] = []"
  "writes (EWrite b # evs) = b # writes evs"
  "writes (EFlush # evs) = writes evs"
  "writes (EReadString l # evs) = writes evs"
  "writes (EReadFail # evs) = writes evs"
  "writes (EUnmarshal m # evs) = writes evs"
  "writes (EEncode c # evs) = writes evs"
  "writes (EReadAll # evs) = writes evs"
  "writes (ESaveUsage mi p n # evs) = writes evs"
  "writes (EStatus k # evs) = writes evs"
  "writes (EInformational k # evs) = writes evs"
  "writes (EPanic # evs) = writes evs"
  by (simp_all add: writes_def)

lemma writes_append [simp]: "writes (xs @ ys) = writes xs @ writes ys"
  by (simp add: writes_def)

lemma continues_refl: "wroteHeader (st_w wd) \<Longrightarrow> continues wd wd []"
  by (simp add: continues_def)

lemma continues_trans:
  "continues wd wd1 evs1 \<Longrightarrow> continues wd1 wd2 evs2 \<Longrightarrow> continues wd wd2 (evs1 @ evs2)"
  by (simp add: continues_def)

lemma continues_committed: "continues wd wd' evs \<Longrightarrow> wroteHeader (st_w wd')"
  by (simp add: continues_def)

lemma continues_emit:
  "wroteHeader (st_w wd) \<Longrightarrow> writes [ev] = [] \<and> statuses [ev] = [] \<Longrightarrow>
   continues wd (emit ev wd) [ev]"
  by (simp add: continues_def emit_def)

lemma continues_Write: "wroteHeader (st_w wd) \<Longrightarrow> continues wd (Write b wd) [EWrite b]"
  by (simp add: continues_def Write_def emit_def)

lemma continues_Flush: "wroteHeader (st_w wd) \<Longrightarrow> continues wd (Flush wd) [EFlush]"
  by (simp add: continues_def Flush_def emit_def)

lemma continues_http_Error:
  "wroteHeader (st_w wd) \<Longrightarrow> continues wd (http_Error msg code wd) [EWrite (msg @ [CHR 0x0A])]"
  by (simp add: continues_def http_Error_def Write_def WriteHeader_def setHeader_def emit_def)

lemma continues_line:
  assumes "wroteHeader (st_w wd)"
  shows "continues wd (Flush (Write line (emit (EReadString line) wd)))
           [EReadString line, EWrite line, EFlush]"
  using assms by (simp add: continues_def Flush_def Write_def emit_def)


section \<open>The streaming relay writes each line as soon as it is read\<close>

definition linesRead :: "event list \<Rightarrow> string list" where
  "linesRead evs = concat (map (\<lambda>ev. case ev of EReadString l \<Rightarrow> [l] | _ \<Rightarrow> []) evs)"

text \<open>Every line read is followed at once by the write of that line and a flush.\<close>

fun relayedAtOnce :: "event list \<Rightarrow> bool" where
  "relayedAtOnce [] = True"
| "relayedAtOnce (EReadString l # evs) =
     (case evs of EWrite b # EFlush # evs' \<Rightarrow> b = l \<and> relayedAtOnce evs' | _ \<Rightarrow> False)"
| "relayedAtOnce (ev # evs) = relayedAtOnce evs"

text \<open>The lines are, in order, the first lines of the body \<open>rd\<close>.\<close>

fun readsFrom :: "string \<Rightarrow> string list \<Rightarrow> bool" where
  "readsFrom rd [] = True"
| "readsFrom rd (l # ls) =
     (case ReadString rd of None \<Rightarrow> False | Some (l', rd') \<Rightarrow> l = l' \<and> readsFrom rd' ls)"

text \<open>
  Both at once, for the proofs: a trace that relays the first lines of \<open>rd\<close>, each written
  and flushed as soon as it is read, and writes nothing else but, last, one message.
\<close>

fun relayTrace :: "string \<Rightarrow> event list \<Rightarrow> bool" where
  "relayTrace rd [] = True"
| "relayTrace rd (EReadString l # evs) =
     (case ReadString rd of
        None \<Rightarrow> False
      | Some (l', rd') \<Rightarrow>
          l = l' \<and>
          (case evs of EWrite b # EFlush # evs' \<Rightarrow> b = l \<and> relayTrace rd' evs' | _ \<Rightarrow> False))"
| "relayTrace rd (EWrite b # evs) = (evs = [])"
| "relayTrace rd (ev # evs) = relayTrace rd evs"

lemma relayTrace_line:
  "ReadString rd = Some (l, rd') \<Longrightarrow>
   relayTrace rd (EReadString l # EWrite l # EFlush # evs) = relayTrace rd' evs"
  by simp

lemma readMessage_relay:
  assumes "wroteHeader (st_w wd)"
  shows "case readMessage rd msg wd of
           (None, wd') \<Rightarrow> \<exists>evs. continues wd wd' evs \<and> relayTrace rd evs
         | (Some (m, rd'), wd') \<Rightarrow>
             \<exists>evs. continues wd wd' evs \<and>
                   (\<forall>rest. relayTrace rd' rest \<longrightarrow> relayTrace rd (evs @ rest))"
  using assms
proof (induction rd msg wd rule: readMessage.induct)
  case (1 rd msg wd)
  note committed = "1.prems"
  show ?case
  proof (cases "ReadString rd")
    case None
    have a: "continues wd (emit EReadFail wd) [EReadFail]"
      using committed by (simp add: continues_emit)
    have b: "continues (emit EReadFail wd)
               (http_Error ''failed to read response'' 502 (emit EReadFail wd))
               [EWrite (''failed to read response'' @ [CHR 0x0A])]"
      using continues_committed [OF a] by (rule continues_http_Error)
    have "relayTrace rd ([EReadFail] @ [EWrite (''failed to read response'' @ [CHR 0x0A])])"
      by simp
    with continues_trans [OF a b] show ?thesis using None
      by (auto simp: readMessage.simps [of rd] simp del: relayTrace.simps)
  next
    case (Some p)
    obtain line r where p: "p = (line, r)" by (cases p)
    let ?wd1 = "Flush (Write line (emit (EReadString line) wd))"
    have c1: "continues wd ?wd1 [EReadString line, EWrite line, EFlush]"
      using committed by (rule continues_line)
    have rs: "ReadString rd = Some (line, r)" using Some p by simp
    show ?thesis
    proof (cases "line = [CHR 0x0A]")
      case True
      have "\<forall>rest. relayTrace r rest \<longrightarrow>
              relayTrace rd ([EReadString line, EWrite line, EFlush] @ rest)"
        using rs by simp
      with c1 show ?thesis using rs True
        by (auto simp: readMessage.simps [of rd] Let_def simp del: relayTrace.simps)
    next
      case False
      let ?msg = "if HasPrefix line ''data:'' then msg @ TrimSpace (drop 5 line) else msg"
      have eq: "readMessage rd msg wd = readMessage r ?msg ?wd1"
        using rs False by (simp add: readMessage.simps [of rd] Let_def)
      have ih: "case readMessage r ?msg ?wd1 of
           (None, wd') \<Rightarrow> \<exists>evs. continues ?wd1 wd' evs \<and> relayTrace r evs
         | (Some (m, rd'), wd') \<Rightarrow>
             \<exists>evs. continues ?wd1 wd' evs \<and>
                   (\<forall>rest. relayTrace rd' rest \<longrightarrow> relayTrace r (evs @ rest))"
        using "1.IH" [OF Some p [symmetric] refl False] continues_committed [OF c1] by simp
      obtain res wd' where res: "readMessage r ?msg ?wd1 = (res, wd')"
        by (cases "readMessage r ?msg ?wd1")
      show ?thesis
      proof (cases res)
        case None
        with ih res obtain evs where e: "continues ?wd1 wd' evs" "relayTrace r evs" by auto
        have "continues wd wd' ([EReadString line, EWrite line, EFlush] @ evs)"
          using c1 e(1) by (rule continues_trans)
        moreover have "relayTrace rd ([EReadString line, EWrite line, EFlush] @ evs)"
          using rs e(2) by simp
        ultimately show ?thesis using eq res None by auto
      next
        case (Some q)
        obtain m rd' where q: "q = (m, rd')" by (cases q)
        with ih res Some obtain evs where e: "continues ?wd1 wd' evs"
          "\<forall>rest. relayTrace rd' rest \<longrightarrow> relayTrace r (evs @ rest)" by auto
        have "continues wd wd' ([EReadString line, EWrite line, EFlush] @ evs)"
          using c1 e(1) by (rule continues_trans)
        moreover have "\<forall>rest. relayTrace rd' rest \<longrightarrow>
            relayTrace rd (([EReadString line, EWrite line, EFlush] @ evs) @ rest)"
          using rs e(2) by simp
        ultimately show ?thesis using eq res Some q by auto
      qed
    qed
  qed
qed


lemma continues_emit_then_Error:
  assumes "wroteHeader (st_w wd)" and "writes [ev] = [] \<and> statuses [ev] = []"
  shows "continues wd (http_Error msg code (emit ev wd)) [ev, EWrite (msg @ [CHR 0x0A])]"
proof -
  have a: "continues wd (emit ev wd) [ev]" using assms by (rule continues_emit)
  have "continues (emit ev wd) (http_Error msg code (emit ev wd)) [EWrite (msg @ [CHR 0x0A])]"
    using continues_committed [OF a] by (rule continues_http_Error)
  with a show ?thesis using continues_trans by fastforce
qed

lemma sseLoop_relay:
  assumes "wroteHeader (st_w wd)"
  shows "case sseLoop e tk rd n wd of
           (None, wd') \<Rightarrow> \<exists>evs. continues wd wd' evs \<and> relayTrace rd evs
         | (Some k, wd') \<Rightarrow>
             \<exists>evs rdF. continues wd wd' evs \<and>
                   (\<forall>rest. relayTrace rdF rest \<longrightarrow> relayTrace rd (evs @ rest))"
  using assms
proof (induction e tk rd n wd rule: sseLoop.induct)
  case (1 e tk rd n wd)
  note committed = "1.prems"
  obtain res wd1 where rm: "readMessage rd [] wd = (res, wd1)"
    by (cases "readMessage rd [] wd")
  note rel = readMessage_relay [OF committed, of rd "[]"]
  show ?case
  proof (cases res)
    case None
    with rel rm show ?thesis by (auto simp: sseLoop.simps [of e tk rd])
  next
    case (Some p)
    obtain msg rd' where p: "p = (msg, rd')" by (cases p)
    from rel rm Some p obtain evs1 where c1: "continues wd wd1 evs1"
      and k1: "\<And>rest. relayTrace rd' rest \<Longrightarrow> relayTrace rd (evs1 @ rest)" by auto
    note com1 = continues_committed [OF c1]
    show ?thesis
    proof (cases "msg = ''[DONE]''")
      case True
      have eq: "sseLoop e tk rd n wd = (Some n, wd1)"
        using rm Some p True by (simp add: sseLoop.simps [of e tk rd])
      from c1 k1 have "\<exists>evs rdF. continues wd wd1 evs \<and>
          (\<forall>rest. relayTrace rdF rest \<longrightarrow> relayTrace rd (evs @ rest))" by blast
      then show ?thesis using eq by simp
    next
      case notDone: False
      let ?wd2 = "emit (EUnmarshal msg) wd1"
      have c2: "continues wd1 ?wd2 [EUnmarshal msg]" using com1 by (simp add: continues_emit)
      note com2 = continues_committed [OF c2]
      have fail: "\<exists>evs. continues wd (http_Error m 502 ?wd2) evs \<and> relayTrace rd evs" for m
      proof -
        have "continues wd1 (http_Error m 502 ?wd2) [EUnmarshal msg, EWrite (m @ [CHR 0x0A])]"
          using com1 by (simp add: continues_emit_then_Error)
        from continues_trans [OF c1 this] k1 [of "[EUnmarshal msg, EWrite (m @ [CHR 0x0A])]"]
        show ?thesis by auto
      qed
      show ?thesis
      proof (cases "unmarshalStreamed e msg")
        case None
        have "sseLoop e tk rd n wd = (None, http_Error ''failed to unmarshal response'' 502 ?wd2)"
          using rm Some p notDone None by (simp add: sseLoop.simps [of e tk rd] Let_def)
        with fail show ?thesis by simp
      next
        case (Some respBody)
        note um = this
        show ?thesis
        proof (cases "length (Choices respBody) \<noteq> 1")
          case True
          have "sseLoop e tk rd n wd =
                  (None, http_Error ''0 or more than 1 choices in response'' 502 ?wd2)"
            using rm \<open>res = Some p\<close> p notDone um True
            by (simp add: sseLoop.simps [of e tk rd] Let_def)
          with fail show ?thesis by simp
        next
          case one: False
          let ?c = "dContent (Delta (hd (Choices respBody)))"
          let ?wd3 = "emit (EEncode ?c) ?wd2"
          have c3: "continues ?wd2 ?wd3 [EEncode ?c]" using com2 by (simp add: continues_emit)
          have c13: "continues wd ?wd3 (evs1 @ [EUnmarshal msg, EEncode ?c])"
            using continues_trans [OF c1 continues_trans [OF c2 c3]] by simp
          note com3 = continues_committed [OF c3]
          show ?thesis
          proof (cases "tk ?c")
            case None
            have eq: "sseLoop e tk rd n wd =
                    (None, http_Error ''failed to tokenize message'' 502 ?wd3)"
              using rm \<open>res = Some p\<close> p notDone um one None
              by (simp add: sseLoop.simps [of e tk rd] Let_def)
            have "continues ?wd3 (http_Error ''failed to tokenize message'' 502 ?wd3)
                    [EWrite (''failed to tokenize message'' @ [CHR 0x0A])]"
              using com3 by (rule continues_http_Error)
            from continues_trans [OF c13 this]
              k1 [of "[EUnmarshal msg, EEncode ?c,
                       EWrite (''failed to tokenize message'' @ [CHR 0x0A])]"]
            show ?thesis using eq by auto
          next
            case (Some ids)
            have eq: "sseLoop e tk rd n wd = sseLoop e tk rd' (n + int (length ids)) ?wd3"
              using rm \<open>res = Some p\<close> p notDone um one Some
              by (simp add: sseLoop.simps [of e tk rd] Let_def)
            have ih: "case sseLoop e tk rd' (n + int (length ids)) ?wd3 of
                (None, wd') \<Rightarrow> \<exists>evs. continues ?wd3 wd' evs \<and> relayTrace rd' evs
              | (Some k, wd') \<Rightarrow>
                  \<exists>evs rdF. continues ?wd3 wd' evs \<and>
                     (\<forall>rest. relayTrace rdF rest \<longrightarrow> relayTrace rd' (evs @ rest))"
              using "1.IH" [OF rm [symmetric] \<open>res = Some p\<close> p [symmetric] notDone refl um _
                  refl refl Some] one com3 by simp
            obtain res2 wd' where r2: "sseLoop e tk rd' (n + int (length ids)) ?wd3 = (res2, wd')"
              by (cases "sseLoop e tk rd' (n + int (length ids)) ?wd3")
            show ?thesis
            proof (cases res2)
              case None
              with ih r2 obtain evs where e: "continues ?wd3 wd' evs" "relayTrace rd' evs"
                by auto
              have "relayTrace rd (evs1 @ [EUnmarshal msg, EEncode ?c] @ evs)"
                using k1 [of "[EUnmarshal msg, EEncode ?c] @ evs"] e(2) by simp
              with continues_trans [OF c13 e(1)] show ?thesis using eq r2 None by auto
            next
              case (Some k)
              with ih r2 obtain evs rdF where e: "continues ?wd3 wd' evs"
                "\<And>rest. relayTrace rdF rest \<Longrightarrow> relayTrace rd' (evs @ rest)" by auto
              let ?E = "(evs1 @ [EUnmarshal msg, EEncode ?c]) @ evs"
              have "relayTrace rd (?E @ rest)" if "relayTrace rdF rest" for rest
                using k1 [of "[EUnmarshal msg, EEncode ?c] @ evs @ rest"] e(2) [OF that] by simp
              then have "\<forall>rest. relayTrace rdF rest \<longrightarrow> relayTrace rd (?E @ rest)" by blast
              with continues_trans [OF c13 e(1)]
              have "\<exists>evs rdF. continues wd wd' evs \<and>
                     (\<forall>rest. relayTrace rdF rest \<longrightarrow> relayTrace rd (evs @ rest))" by blast
              then show ?thesis using eq r2 Some by simp
            qed
          qed
        qed
      qed
    qed
  qed
qed


lemma tokenizeMessages_relay:
  assumes "wroteHeader (st_w wd)"
  shows "case tokenizeMessages tk ms n wd of
           (None, wd') \<Rightarrow> \<exists>evs. continues wd wd' evs \<and> relayTrace rd evs
         | (Some k, wd') \<Rightarrow>
             \<exists>evs. continues wd wd' evs \<and>
                   (\<forall>rest. relayTrace rd rest \<longrightarrow> relayTrace rd (evs @ rest))"
  using assms
proof (induction ms arbitrary: n wd)
  case Nil
  have "continues wd wd []" using Nil by (rule continues_refl)
  then show ?case by auto
next
  case (Cons m ms)
  let ?wd1 = "emit (EEncode (Content m)) wd"
  have c1: "continues wd ?wd1 [EEncode (Content m)]" using Cons.prems by (simp add: continues_emit)
  note com1 = continues_committed [OF c1]
  show ?case
  proof (cases "tk (Content m)")
    case None
    have "continues ?wd1 (http_Error ''failed to tokenize prompt'' 502 ?wd1)
            [EWrite (''failed to tokenize prompt'' @ [CHR 0x0A])]"
      using com1 by (rule continues_http_Error)
    from continues_trans [OF c1 this] show ?thesis using None by (auto simp: Let_def)
  next
    case (Some ids)
    have eq: "tokenizeMessages tk (m # ms) n wd =
              tokenizeMessages tk ms (n + int (length ids)) ?wd1"
      using Some by (simp add: Let_def)
    note ih = Cons.IH [OF com1, where n = "n + int (length ids)"]
    obtain res wd' where r: "tokenizeMessages tk ms (n + int (length ids)) ?wd1 = (res, wd')"
      by (cases "tokenizeMessages tk ms (n + int (length ids)) ?wd1")
    show ?thesis
    proof (cases res)
      case None
      with ih r obtain evs where e: "continues ?wd1 wd' evs" "relayTrace rd evs" by auto
      have "relayTrace rd ([EEncode (Content m)] @ evs)" using e(2) by simp
      with continues_trans [OF c1 e(1)] show ?thesis using eq r None by auto
    next
      case (Some k)
      with ih r obtain evs where e: "continues ?wd1 wd' evs"
        "\<And>rest. relayTrace rd rest \<Longrightarrow> relayTrace rd (evs @ rest)" by auto
      have "\<forall>rest. relayTrace rd rest \<longrightarrow> relayTrace rd (([EEncode (Content m)] @ evs) @ rest)"
        using e(2) by simp
      with continues_trans [OF c1 e(1)] show ?thesis using eq r Some by auto
    qed
  qed
qed

lemma newEvents_append: "trace wd' = trace wd @ evs \<Longrightarrow> newEvents wd wd' = evs"
  by (simp add: newEvents_def)

lemma sseStart:
  assumes "wd1 = Flush (WriteHeader 200
                     (setHeader ''Connection'' ''keep-alive''
                       (setHeader ''Cache-Control'' ''no-cache''
                         (setHeader ''Content-Type'' ''text/event-stream'' wd))))"
  shows "wroteHeader (st_w wd1) \<and> wbody (st_w wd1) = wbody (st_w wd) \<and>
         trace wd1 = trace wd @ (if wroteHeader (st_w wd) then [] else [EStatus 200]) @ [EFlush]"
  using assms by (simp add: writer_defs)

lemma proxySSEResponse_relay:
  "\<exists>evs. trace (proxySSEResponse e wd resp projectID modelID crb tk) = trace wd @ evs \<and>
         relayTrace (Body resp) evs \<and>
         wbody (st_w (proxySSEResponse e wd resp projectID modelID crb tk)) =
           wbody (st_w wd) @ concat (writes evs)"
proof (cases "isFlusher (st_w wd)")
  case False
  then show ?thesis by (simp add: proxySSEResponse_def writer_defs)
next
  case True
  define wd1 where "wd1 = Flush (WriteHeader 200
                     (setHeader ''Connection'' ''keep-alive''
                       (setHeader ''Cache-Control'' ''no-cache''
                         (setHeader ''Content-Type'' ''text/event-stream'' wd))))"
  define pre where "pre = (if wroteHeader (st_w wd) then [] else [EStatus 200]) @ [EFlush]"
  from sseStart [OF wd1_def] have com1: "wroteHeader (st_w wd1)"
    and b1: "wbody (st_w wd1) = wbody (st_w wd)" and t1: "trace wd1 = trace wd @ pre"
    by (simp_all add: pre_def)
  have pre_neutral: "relayTrace rd (pre @ evs) = relayTrace rd evs"
    and pre_writes: "writes pre = []" for rd evs
    by (simp_all add: pre_def)
  have lift: "\<exists>evs'. trace wd' = trace wd @ evs' \<and> relayTrace (Body resp) evs' \<and>
                 wbody (st_w wd') = wbody (st_w wd) @ concat (writes evs')"
    if "continues wd1 wd' evs" "relayTrace (Body resp) evs" for wd' evs
  proof -
    have "trace wd' = trace wd @ (pre @ evs)" using that(1) t1 by (simp add: continues_def)
    moreover have "relayTrace (Body resp) (pre @ evs)" using that(2) pre_neutral by simp
    moreover have "wbody (st_w wd') = wbody (st_w wd) @ concat (writes (pre @ evs))"
      using that(1) b1 pre_writes by (simp add: continues_def)
    ultimately show ?thesis by blast
  qed
  obtain r2 wd2 where tm: "tokenizeMessages tk (Messages crb) 0 wd1 = (r2, wd2)"
    by (cases "tokenizeMessages tk (Messages crb) 0 wd1")
  note tr = tokenizeMessages_relay [OF com1, where tk = tk and ms = "Messages crb" and n = 0 and rd = "Body resp"]
  show ?thesis
  proof (cases r2)
    case None
    with tr tm obtain evs where "continues wd1 wd2 evs" "relayTrace (Body resp) evs" by auto
    from lift [OF this] show ?thesis
      using True tm None by (simp add: proxySSEResponse_def wd1_def [symmetric])
  next
    case (Some n)
    with tr tm obtain evsT where cT: "continues wd1 wd2 evsT"
      and kT: "\<And>rest. relayTrace (Body resp) rest \<Longrightarrow> relayTrace (Body resp) (evsT @ rest)"
      by auto
    note com2 = continues_committed [OF cT]
    obtain r3 wd3 where sl: "sseLoop e tk (Body resp) n wd2 = (r3, wd3)"
      by (cases "sseLoop e tk (Body resp) n wd2")
    note lr = sseLoop_relay [OF com2, where e = e and tk = tk and rd = "Body resp" and n = n]
    show ?thesis
    proof (cases r3)
      case None
      with lr sl obtain evsL where cL: "continues wd2 wd3 evsL"
        and "relayTrace (Body resp) evsL" by auto
      then have "relayTrace (Body resp) (evsT @ evsL)" using kT by simp
      from lift [OF continues_trans [OF cT cL] this] show ?thesis
        using True tm Some sl None by (simp add: proxySSEResponse_def wd1_def [symmetric])
    next
      case (Some k)
      with lr sl obtain evsL rdF where cL: "continues wd2 wd3 evsL"
        and kL: "\<And>rest. relayTrace rdF rest \<Longrightarrow> relayTrace (Body resp) (evsL @ rest)" by auto
      let ?wd4 = "doSaveUsage modelID projectID k wd3"
      have c4: "continues wd1 wd3 (evsT @ evsL)" by (rule continues_trans [OF cT cL])
      have t4: "trace ?wd4 = trace wd @ (pre @ evsT @ evsL @ [ESaveUsage modelID projectID k])"
        using c4 t1
        by (simp add: doSaveUsage_def continues_def emit_def split: prod.splits)
      have b4: "wbody (st_w ?wd4) =
                wbody (st_w wd) @ concat (writes (pre @ evsT @ evsL @ [ESaveUsage modelID projectID k]))"
        using c4 b1 pre_writes
        by (simp add: doSaveUsage_def continues_def emit_def split: prod.splits)
      have "relayTrace (Body resp) (evsT @ evsL @ [ESaveUsage modelID projectID k])"
        using kT [OF kL [of "[ESaveUsage modelID projectID k]"]] by simp
      then have "relayTrace (Body resp) (pre @ evsT @ evsL @ [ESaveUsage modelID projectID k])"
        using pre_neutral by simp
      with t4 b4 have "\<exists>evs. trace ?wd4 = trace wd @ evs \<and> relayTrace (Body resp) evs \<and>
         wbody (st_w ?wd4) = wbody (st_w wd) @ concat (writes evs)" by blast
      then show ?thesis
        using True tm \<open>r2 = Some n\<close> sl Some
        by (simp add: proxySSEResponse_def wd1_def [symmetric])
    qed
  qed
qed

lemma writeFlushCase:
  assumes "case evs of EWrite b # EFlush # evs' \<Rightarrow> P b evs' | _ \<Rightarrow> False"
  obtains b evs' where "evs = EWrite b # EFlush # evs'" and "P b evs'"
proof (cases evs)
  case Nil
  with assms show ?thesis by simp
next
  case (Cons a es)
  with assms obtain b where a: "a = EWrite b"
    and c: "case es of EFlush # evs' \<Rightarrow> P b evs' | _ \<Rightarrow> False"
    by (cases a) simp_all
  show ?thesis
  proof (cases es)
    case Nil
    with c show ?thesis by simp
  next
    case (Cons f es')
    with c have "f = EFlush \<and> P b es'" by (cases f) simp_all
    with Cons \<open>evs = a # es\<close> a that show ?thesis by simp
  qed
qed

lemma relayTrace_ReadE:
  assumes "relayTrace rd (EReadString l # evs)"
  obtains rd' evs' where "ReadString rd = Some (l, rd')" and "evs = EWrite l # EFlush # evs'"
    and "relayTrace rd' evs'"
proof -
  from assms obtain rd' where rs: "ReadString rd = Some (l, rd')"
    and c: "case evs of EWrite b # EFlush # evs' \<Rightarrow> b = l \<and> relayTrace rd' evs' | _ \<Rightarrow> False"
    by (auto split: option.splits)
  from c obtain b evs' where "evs = EWrite b # EFlush # evs'" "b = l \<and> relayTrace rd' evs'"
    by (rule writeFlushCase)
  with rs that show ?thesis by blast
qed


lemma relayTrace_cases_induct [consumes 1, case_names Nil Line Last Other]:
  assumes major: "relayTrace rd evs"
    and nil: "\<And>rd. P rd []"
    and line: "\<And>rd l rd' evs. ReadString rd = Some (l, rd') \<Longrightarrow> relayTrace rd' evs \<Longrightarrow>
                 P rd' evs \<Longrightarrow> P rd (EReadString l # EWrite l # EFlush # evs)"
    and last: "\<And>rd b. P rd [EWrite b]"
    and other: "\<And>rd ev evs. \<forall>l. ev \<noteq> EReadString l \<Longrightarrow> \<forall>b. ev \<noteq> EWrite b \<Longrightarrow>
                 relayTrace rd evs \<Longrightarrow> P rd evs \<Longrightarrow> P rd (ev # evs)"
  shows "P rd evs"
  using major
proof (induction evs arbitrary: rd rule: length_induct)
  case (1 evs)
  note IH = "1.IH" [rule_format]
  show ?case
  proof (cases evs)
    case Nil
    then show ?thesis by (simp add: nil)
  next
    case (Cons ev es)
    show ?thesis
    proof (cases "\<exists>l. ev = EReadString l")
      case True
      then obtain l where ev: "ev = EReadString l" by blast
      from "1.prems" [unfolded Cons ev] obtain rd' evs' where
        rs: "ReadString rd = Some (l, rd')" and
        es: "es = EWrite l # EFlush # evs'" and r: "relayTrace rd' evs'"
        by (rule relayTrace_ReadE)
      have "length evs' < length evs" using Cons es by simp
      from IH [OF this r] have "P rd' evs'" .
      from line [OF rs r this] show ?thesis using Cons ev es by simp
    next
      case notR: False
      show ?thesis
      proof (cases "\<exists>b. ev = EWrite b")
        case True
        with "1.prems" Cons last show ?thesis by auto
      next
        case notW: False
        with notR "1.prems" Cons have r: "relayTrace rd es" by (cases ev) simp_all
        have "length es < length evs" using Cons by simp
        from IH [OF this r] have "P rd es" .
        with other [of ev rd es] notR notW r show ?thesis using Cons by blast
      qed
    qed
  qed
qed

lemma relayedAtOnce_other: "\<forall>l. ev \<noteq> EReadString l \<Longrightarrow> relayedAtOnce (ev # evs) = relayedAtOnce evs"
  by (cases ev) auto

lemma linesRead_other: "\<forall>l. ev \<noteq> EReadString l \<Longrightarrow> linesRead (ev # evs) = linesRead evs"
  by (cases ev) (auto simp: linesRead_def)

lemma writes_other: "\<forall>b. ev \<noteq> EWrite b \<Longrightarrow> writes (ev # evs) = writes evs"
  by (cases ev) (auto simp: writes_def)

lemma linesRead_simps [simp]:
  "linesRead [] = []"
  "linesRead (EReadString l # evs) = l # linesRead evs"
  "linesRead (EWrite b # evs) = linesRead evs"
  "linesRead (EFlush # evs) = linesRead evs"
  by (simp_all add: linesRead_def)

lemma relayTrace_relayedAtOnce: "relayTrace rd evs \<Longrightarrow> relayedAtOnce evs"
  by (induction rule: relayTrace_cases_induct) (simp_all add: relayedAtOnce_other)

lemma relayTrace_readsFrom: "relayTrace rd evs \<Longrightarrow> readsFrom rd (linesRead evs)"
  by (induction rule: relayTrace_cases_induct) (simp_all add: linesRead_other)

lemma relayTrace_writes:
  "relayTrace rd evs \<Longrightarrow>
   take (length (linesRead evs)) (writes evs) = linesRead evs \<and>
   length (writes evs) \<le> Suc (length (linesRead evs))"
  by (induction rule: relayTrace_cases_induct) (simp_all add: linesRead_other writes_other)


definition resolvedDb :: db where
  "resolvedDb = aliceDb\<lparr>projects := [(1, 1, ''<default>'')], models := [(1, ''gpt-x'')]\<rparr>"

definition chatStreamRequest :: completionRequestBody where
  "chatStreamRequest =
     \<lparr>Model = ''gpt-x'', Messages = [\<lparr>Content = ''hi''\<rparr>], Suffix = [], Stream = True\<rparr>"

definition helloLine :: string where
  "helloLine = ''data: '' @ deltaHello"

definition doneLine :: string where
  "doneLine = ''data: [DONE]''"

definition sseBody :: string where
  "sseBody = helloLine @ [CHR 0x0A, CHR 0x0A] @ doneLine @ [CHR 0x0A, CHR 0x0A]"

definition sseResponse :: response where
  "sseResponse = \<lparr>StatusCode = 200, RespHeader = [(''Content-Type'', [''text/event-stream''])],
     Body = sseBody, BodyErr = False\<rparr>"

section \<open>Well-formed event streams\<close>

text \<open>
  A block of the event stream: lines (without their newlines, none empty), each ended by
  a newline, and a bare newline after them. Its message is what the \<open>data:\<close> lines
  carry, prefix stripped and trimmed, put together.
\<close>

definition wellFormedLines :: "string list \<Rightarrow> bool" where
  "wellFormedLines ls = list_all (\<lambda>l. l \<noteq> [] \<and> CHR 0x0A \<notin> set l) ls"

definition sseBlock :: "string list \<Rightarrow> string" where
  "sseBlock ls = concat (map (\<lambda>l. l @ [CHR 0x0A]) ls) @ [CHR 0x0A]"

definition payload :: "string \<Rightarrow> string" where
  "payload l =
     (if HasPrefix (l @ [CHR 0x0A]) ''data:'' then TrimSpace (drop 5 (l @ [CHR 0x0A])) else [])"

definition blockMessage :: "string list \<Rightarrow> string" where
  "blockMessage ls = concat (map payload ls)"

definition lineEvents :: "string \<Rightarrow> event list" where
  "lineEvents l = [EReadString l, EWrite l, EFlush]"

definition blockEvents :: "string list \<Rightarrow> event list" where
  "blockEvents ls = concat (map (\<lambda>l. lineEvents (l @ [CHR 0x0A])) ls) @ lineEvents [CHR 0x0A]"

text \<open>
  A delta block \<open>(ls, c, ids)\<close>: its message is not the sentinel and decodes to exactly
  one choice, with delta content \<open>c\<close>, which the tokenizer encodes as \<open>ids\<close>.
\<close>

definition deltaBlock :: "env \<Rightarrow> codec \<Rightarrow> string list \<times> string \<times> nat list \<Rightarrow> bool" where
  "deltaBlock e tk blk =
     (case blk of (ls, c, ids) \<Rightarrow>
        wellFormedLines ls \<and> blockMessage ls \<noteq> ''[DONE]'' \<and>
        map_option Choices (unmarshalStreamed e (blockMessage ls)) =
          Some [\<lparr>Delta = \<lparr>dContent = c\<rparr>\<rparr>] \<and>
        tk c = Some ids)"

definition deltaEvents :: "string list \<times> string \<times> nat list \<Rightarrow> event list" where
  "deltaEvents blk =
     (case blk of (ls, c, ids) \<Rightarrow> blockEvents ls @ [EUnmarshal (blockMessage ls), EEncode c])"

definition deltaTokens :: "(string list \<times> string \<times> nat list) list \<Rightarrow> nat" where
  "deltaTokens blks = sum_list (map (\<lambda>(ls, c, ids). length ids) blks)"

definition streamBytes :: "(string list \<times> string \<times> nat list) list \<Rightarrow> string" where
  "streamBytes blks = concat (map (\<lambda>(ls, c, ids). sseBlock ls) blks)"

text \<open>The store takes a usage row for this model and project: the next statement does
  not fail from outside, and both rows exist.\<close>

definition usageAccepted :: "db \<Rightarrow> int \<Rightarrow> int \<Rightarrow> bool" where
  "usageAccepted c modelID projectID =
     (\<not> fst (ExecuteTransient c) \<and> modelID \<in> set (map fst (models c)) \<and>
      projectID \<in> set (map fst (projects c)))"

lemma ReadString_line:
  assumes "CHR 0x0A \<notin> set l"
  shows "ReadString (l @ CHR 0x0A # rest) = Some (l @ [CHR 0x0A], rest)"
proof -
  have all: "\<forall>x\<in>set l. x \<noteq> CHR 0x0A" using assms by auto
  have "takeWhile (\<lambda>c. c \<noteq> CHR 0x0A) (l @ CHR 0x0A # rest) = l"
    using all by (induction l) simp_all
  moreover have "dropWhile (\<lambda>c. c \<noteq> CHR 0x0A) (l @ CHR 0x0A # rest) = CHR 0x0A # rest"
    using all by (induction l) simp_all
  ultimately show ?thesis by (simp add: ReadString_def Let_def)
qed

lemma readMessage_block:
  assumes "wellFormedLines ls" and "wroteHeader (st_w wd)"
  shows "\<exists>wd'. readMessage (sseBlock ls @ rest) msg wd = (Some (msg @ blockMessage ls, rest), wd') \<and>
              continues wd wd' (blockEvents ls)"
  using assms
proof (induction ls arbitrary: msg wd)
  case Nil
  have rs: "ReadString (sseBlock [] @ rest) = Some ([CHR 0x0A], rest)"
    using ReadString_line [of "[]" rest] by (simp add: sseBlock_def)
  let ?wd1 = "Flush (Write [CHR 0x0A] (emit (EReadString [CHR 0x0A]) wd))"
  have "continues wd ?wd1 (blockEvents [])"
    using continues_line [OF Nil.prems(2), of "[CHR 0x0A]"]
    by (simp add: blockEvents_def lineEvents_def)
  moreover have "readMessage (sseBlock [] @ rest) msg wd = (Some (msg @ blockMessage [], rest), ?wd1)"
    using rs by (simp add: readMessage.simps [of "sseBlock [] @ rest"] blockMessage_def)
  ultimately show ?case by blast
next
  case (Cons l ls)
  from Cons.prems(1) have l: "l \<noteq> []" "CHR 0x0A \<notin> set l" and wf: "wellFormedLines ls"
    by (simp_all add: wellFormedLines_def)
  let ?line = "l @ [CHR 0x0A]"
  have sb: "sseBlock (l # ls) @ rest = l @ CHR 0x0A # (sseBlock ls @ rest)"
    by (simp add: sseBlock_def)
  have rs: "ReadString (sseBlock (l # ls) @ rest) = Some (?line, sseBlock ls @ rest)"
    unfolding sb using l(2) by (rule ReadString_line)
  have ne: "?line \<noteq> [CHR 0x0A]" using l(1) by (cases l) simp_all
  let ?wd1 = "Flush (Write ?line (emit (EReadString ?line) wd))"
  have c1: "continues wd ?wd1 (lineEvents ?line)"
    using continues_line [OF Cons.prems(2), of ?line] by (simp add: lineEvents_def)
  let ?msg = "if HasPrefix ?line ''data:'' then msg @ TrimSpace (drop 5 ?line) else msg"
  have m: "?msg = msg @ payload l" by (simp add: payload_def)
  have eq: "readMessage (sseBlock (l # ls) @ rest) msg wd = readMessage (sseBlock ls @ rest) ?msg ?wd1"
    using rs ne by (simp add: readMessage.simps [of "sseBlock (l # ls) @ rest"] Let_def)
  from Cons.IH [OF wf continues_committed [OF c1], of ?msg]
  obtain wd' where r: "readMessage (sseBlock ls @ rest) ?msg ?wd1 = (Some (?msg @ blockMessage ls, rest), wd')"
    and c2: "continues ?wd1 wd' (blockEvents ls)" by blast
  have "continues wd wd' (blockEvents (l # ls))"
    using continues_trans [OF c1 c2] by (simp add: blockEvents_def)
  moreover have "readMessage (sseBlock (l # ls) @ rest) msg wd =
                 (Some (msg @ blockMessage (l # ls), rest), wd')"
    using eq r m by (simp add: blockMessage_def)
  ultimately show ?case by blast
qed


lemma sseLoop_done:
  assumes "wellFormedLines dn" and "blockMessage dn = ''[DONE]''" and "wroteHeader (st_w wd)"
  shows "\<exists>wd'. sseLoop e tk (sseBlock dn @ rest) n wd = (Some n, wd') \<and>
              continues wd wd' (blockEvents dn)"
proof -
  from readMessage_block [OF assms(1) assms(3), of rest "[]"]
  obtain wd' where "readMessage (sseBlock dn @ rest) [] wd = (Some (blockMessage dn, rest), wd')"
    and c: "continues wd wd' (blockEvents dn)" by auto
  then have "sseLoop e tk (sseBlock dn @ rest) n wd = (Some n, wd')"
    using assms(2) by (simp add: sseLoop.simps [of e tk "sseBlock dn @ rest"])
  with c show ?thesis by blast
qed

lemma sseLoop_blocks:
  assumes "list_all (deltaBlock e tk) blks" and "wellFormedLines dn"
    and "blockMessage dn = ''[DONE]''" and "wroteHeader (st_w wd)"
  shows "\<exists>wd'. sseLoop e tk (streamBytes blks @ sseBlock dn @ rest) n wd =
                 (Some (n + int (deltaTokens blks)), wd') \<and>
              continues wd wd' (concat (map deltaEvents blks) @ blockEvents dn)"
  using assms
proof (induction blks arbitrary: n wd)
  case Nil
  from sseLoop_done [OF Nil.prems(2,3,4), of e tk rest n]
  show ?case by (simp add: streamBytes_def deltaTokens_def)
next
  case (Cons blk blks)
  obtain ls c ids where blk: "blk = (ls, c, ids)" by (cases blk)
  from Cons.prems(1) have this_one: "deltaBlock e tk blk"
    and others: "list_all (deltaBlock e tk) blks" by simp_all
  from this_one blk have wf: "wellFormedLines ls" and nd: "blockMessage ls \<noteq> ''[DONE]''"
    and um: "map_option Choices (unmarshalStreamed e (blockMessage ls)) =
               Some [\<lparr>Delta = \<lparr>dContent = c\<rparr>\<rparr>]"
    and tk: "tk c = Some ids"
    by (simp_all add: deltaBlock_def)
  from um obtain respBody where ub: "unmarshalStreamed e (blockMessage ls) = Some respBody"
    and ch: "Choices respBody = [\<lparr>Delta = \<lparr>dContent = c\<rparr>\<rparr>]" by auto
  let ?rd' = "streamBytes blks @ sseBlock dn @ rest"
  have bytes: "streamBytes (blk # blks) @ sseBlock dn @ rest = sseBlock ls @ ?rd'"
    using blk by (simp add: streamBytes_def)
  from readMessage_block [OF wf Cons.prems(4), of ?rd' "[]"]
  obtain wd1 where rm: "readMessage (sseBlock ls @ ?rd') [] wd = (Some (blockMessage ls, ?rd'), wd1)"
    and c1: "continues wd wd1 (blockEvents ls)" by auto
  let ?wd2 = "emit (EUnmarshal (blockMessage ls)) wd1"
  let ?wd3 = "emit (EEncode c) ?wd2"
  have c2: "continues wd1 ?wd2 [EUnmarshal (blockMessage ls)]"
    using continues_committed [OF c1] by (simp add: continues_emit)
  have c3: "continues ?wd2 ?wd3 [EEncode c]"
    using continues_committed [OF c2] by (simp add: continues_emit)
  have c13: "continues wd ?wd3 (deltaEvents blk)"
    using continues_trans [OF c1 continues_trans [OF c2 c3]] blk by (simp add: deltaEvents_def)
  have eq: "sseLoop e tk (sseBlock ls @ ?rd') n wd = sseLoop e tk ?rd' (n + int (length ids)) ?wd3"
    using rm nd ub ch tk by (simp add: sseLoop.simps [of e tk "sseBlock ls @ ?rd'"] Let_def)
  from Cons.IH [OF others Cons.prems(2,3) continues_committed [OF c13], of "n + int (length ids)"]
  obtain wd' where r: "sseLoop e tk ?rd' (n + int (length ids)) ?wd3 =
      (Some (n + int (length ids) + int (deltaTokens blks)), wd')"
    and c4: "continues ?wd3 wd' (concat (map deltaEvents blks) @ blockEvents dn)" by blast
  have "continues wd wd' (concat (map deltaEvents (blk # blks)) @ blockEvents dn)"
    using continues_trans [OF c13 c4] by simp
  moreover have "sseLoop e tk (streamBytes (blk # blks) @ sseBlock dn @ rest) n wd =
                 (Some (n + int (deltaTokens (blk # blks))), wd')"
    using eq r bytes blk by (simp add: deltaTokens_def)
  ultimately show ?case by blast
qed

lemma tokenizeMessages_ok:
  assumes "map (\<lambda>m. tk (Content m)) ms = map Some pids" and "wroteHeader (st_w wd)"
  shows "\<exists>wd'. tokenizeMessages tk ms n wd = (Some (n + int (sum_list (map length pids))), wd') \<and>
              continues wd wd' (map (\<lambda>m. EEncode (Content m)) ms)"
  using assms
proof (induction ms arbitrary: pids n wd)
  case Nil
  then show ?case by (auto intro: continues_refl)
next
  case (Cons m ms)
  from Cons.prems(1) obtain ids pids' where p: "pids = ids # pids'" and tk: "tk (Content m) = Some ids"
    and rest: "map (\<lambda>m. tk (Content m)) ms = map Some pids'" by (cases pids) auto
  let ?wd1 = "emit (EEncode (Content m)) wd"
  have c1: "continues wd ?wd1 [EEncode (Content m)]"
    using Cons.prems(2) by (simp add: continues_emit)
  from Cons.IH [OF rest continues_committed [OF c1], of "n + int (length ids)"]
  obtain wd' where r: "tokenizeMessages tk ms (n + int (length ids)) ?wd1 =
       (Some (n + int (length ids) + int (sum_list (map length pids'))), wd')"
    and c2: "continues ?wd1 wd' (map (\<lambda>m. EEncode (Content m)) ms)" by blast
  have "continues wd wd' (map (\<lambda>m. EEncode (Content m)) (m # ms))"
    using continues_trans [OF c1 c2] by simp
  moreover have "tokenizeMessages tk (m # ms) n wd =
      (Some (n + int (sum_list (map length pids))), wd')"
    using r tk p by (simp add: Let_def)
  ultimately show ?case by blast
qed

lemma writes_blockEvents: "concat (writes (blockEvents ls)) = sseBlock ls"
  by (induction ls) (simp_all add: blockEvents_def lineEvents_def sseBlock_def)

lemma writes_deltaEvents: "concat (writes (concat (map deltaEvents blks))) = streamBytes blks"
proof (induction blks)
  case Nil
  show ?case by (simp add: streamBytes_def)
next
  case (Cons blk blks)
  obtain ls c ids where blk: "blk = (ls, c, ids)" by (cases blk)
  have "concat (writes (deltaEvents blk)) = sseBlock ls"
    using blk by (simp add: deltaEvents_def writes_blockEvents)
  with Cons blk show ?case by (simp add: streamBytes_def)
qed

lemma writes_Encode: "writes (map (\<lambda>m. EEncode (Content m)) ms) = []"
  by (induction ms) simp_all

lemma saveUsage_accepted:
  assumes "usageAccepted c modelID projectID"
  shows "usage (snd (saveUsage c modelID projectID n)) = usage c @ [(modelID, projectID, n)]"
  using assms
  by (auto simp: usageAccepted_def saveUsage_def ExecuteTransient_def split: list.splits)

text \<open>The run of the streaming relay on a well-formed stream that ends with the sentinel.\<close>

lemma proxySSEResponse_stream:
  fixes projectID modelID :: int
  assumes flusher: "isFlusher (st_w wd)"
    and prompt: "map (\<lambda>m. tk (Content m)) (Messages crb) = map Some pids"
    and deltas: "list_all (deltaBlock e tk) blks"
    and sentinel: "wellFormedLines dn" "blockMessage dn = ''[DONE]''"
    and body: "Body resp = streamBytes blks @ sseBlock dn @ rest"
  defines "n \<equiv> int (sum_list (map length pids) + deltaTokens blks)"
  defines "wd' \<equiv> proxySSEResponse e wd resp projectID modelID crb tk"
  shows "trace wd' = trace wd @
           (if wroteHeader (st_w wd) then [] else [EStatus 200]) @ [EFlush] @
           map (\<lambda>m. EEncode (Content m)) (Messages crb) @
           concat (map deltaEvents blks) @ blockEvents dn @
           [ESaveUsage modelID projectID n]"
    and "st_db wd' = snd (saveUsage (st_db wd) modelID projectID n)"
    and "wbody (st_w wd') = wbody (st_w wd) @ streamBytes blks @ sseBlock dn"
proof -
  define wd1 where "wd1 = Flush (WriteHeader 200
                     (setHeader ''Connection'' ''keep-alive''
                       (setHeader ''Cache-Control'' ''no-cache''
                         (setHeader ''Content-Type'' ''text/event-stream'' wd))))"
  define pre where "pre = (if wroteHeader (st_w wd) then [] else [EStatus 200]) @ [EFlush]"
  from sseStart [OF wd1_def] have com1: "wroteHeader (st_w wd1)"
    and b1: "wbody (st_w wd1) = wbody (st_w wd)" and t1: "trace wd1 = trace wd @ pre"
    by (simp_all add: pre_def)
  have d1: "st_db wd1 = st_db wd" by (simp add: wd1_def writer_defs)
  from tokenizeMessages_ok [OF prompt com1, of 0]
  obtain wd2 where tm: "tokenizeMessages tk (Messages crb) 0 wd1 =
       (Some (int (sum_list (map length pids))), wd2)"
    and c2: "continues wd1 wd2 (map (\<lambda>m. EEncode (Content m)) (Messages crb))" by auto
  from sseLoop_blocks [OF deltas sentinel continues_committed [OF c2],
      of rest "int (sum_list (map length pids))"]
  obtain wd3 where sl: "sseLoop e tk (Body resp) (int (sum_list (map length pids))) wd2 =
       (Some n, wd3)"
    and c3: "continues wd2 wd3 (concat (map deltaEvents blks) @ blockEvents dn)"
    unfolding body n_def by auto
  have wd': "wd' = doSaveUsage modelID projectID n wd3"
    using flusher tm sl by (simp add: wd'_def proxySSEResponse_def wd1_def [symmetric])
  note c13 = continues_trans [OF c2 c3]
  show "trace wd' = trace wd @
           (if wroteHeader (st_w wd) then [] else [EStatus 200]) @ [EFlush] @
           map (\<lambda>m. EEncode (Content m)) (Messages crb) @
           concat (map deltaEvents blks) @ blockEvents dn @
           [ESaveUsage modelID projectID n]"
    using c13 t1
    by (simp add: wd' doSaveUsage_def continues_def emit_def pre_def split: prod.splits)
  show "st_db wd' = snd (saveUsage (st_db wd) modelID projectID n)"
    using c13 d1 by (simp add: wd' doSaveUsage_def continues_def emit_def split: prod.splits)
  have w: "concat (writes (concat (map deltaEvents blks) @ blockEvents dn)) =
           streamBytes blks @ sseBlock dn"
    by (simp add: writes_blockEvents writes_deltaEvents)
  show "wbody (st_w wd') = wbody (st_w wd) @ streamBytes blks @ sseBlock dn"
    using c13 b1 w
    by (simp add: wd' doSaveUsage_def continues_def emit_def writes_Encode split: prod.splits)
qed

definition helloBlocks :: "(string list \<times> string \<times> nat list) list" where
  "helloBlocks = [([helloLine], ''Hello'', [72, 101, 108, 108, 111])]"

lemma payload_hello: "payload helloLine = deltaHello"
  apply (simp add: payload_def helloLine_def deltaHello_def HasPrefix_def)
  apply (simp add: TrimSpace_def)
  apply (simp add: TrimLeftSpace.simps leadSpace_def HasPrefix_def spaceRunes_def)
  apply (simp add: TrimRightSpace.simps trailSpace_def HasSuffix_def spaceRunes_def)
  done

lemma payload_done: "payload doneLine = ''[DONE]''"
  apply (simp add: payload_def doneLine_def HasPrefix_def)
  apply (simp add: TrimSpace_def)
  apply (simp add: TrimLeftSpace.simps leadSpace_def HasPrefix_def spaceRunes_def)
  apply (simp add: TrimRightSpace.simps trailSpace_def HasSuffix_def spaceRunes_def)
  done

lemma sample_payloads:
  "blockMessage [helloLine] = deltaHello"
  "blockMessage [doneLine] = ''[DONE]''"
  by (simp_all add: blockMessage_def payload_hello payload_done)

lemma sample_lines: "wellFormedLines [helloLine]" "wellFormedLines [doneLine]"
  by (simp_all add: wellFormedLines_def helloLine_def doneLine_def deltaHello_def)

lemma sample_stream:
  "isFlusher (st_w (handlerEntry resolvedDb))"
  "map (\<lambda>m. byteCodec (Content m)) (Messages chatStreamRequest) = map Some [[104, 105]]"
  "list_all (deltaBlock (sampleEnv sseResponse) byteCodec) helloBlocks"
  "Body sseResponse = streamBytes helloBlocks @ sseBlock [doneLine] @ []"
  "usageAccepted (st_db (handlerEntry resolvedDb)) 1 1"
proof -
  show "isFlusher (st_w (handlerEntry resolvedDb))"
    by (simp add: handlerEntry_def newWriter_def)
  show "map (\<lambda>m. byteCodec (Content m)) (Messages chatStreamRequest) = map Some [[104, 105]]"
    by (simp add: byteCodec_def chatStreamRequest_def)
  have "deltaHello \<noteq> ''[DONE]''" by (simp add: deltaHello_def)
  then show "list_all (deltaBlock (sampleEnv sseResponse) byteCodec) helloBlocks"
    by (simp add: helloBlocks_def deltaBlock_def sample_payloads sample_lines
        sampleEnv_def sampleUnmarshalStreamed_def byteCodec_def)
  show "Body sseResponse = streamBytes helloBlocks @ sseBlock [doneLine] @ []"
    by (simp add: sseResponse_def sseBody_def streamBytes_def helloBlocks_def sseBlock_def)
  show "usageAccepted (st_db (handlerEntry resolvedDb)) 1 1"
    by (simp add: usageAccepted_def handlerEntry_def resolvedDb_def aliceDb_def
        ExecuteTransient_def)
qed

section \<open>The relay of the upstream's answer\<close>

text \<open>What the header loop leaves under a name.\<close>

lemma fold_header_Add:
  "fold (\<lambda>v h'. header_Add h' k v) vs h =
     (if vs = [] then h else h(k \<mapsto> (case h k of None \<Rightarrow> [] | Some ws \<Rightarrow> ws) @ vs))"
proof (induction vs arbitrary: h)
  case Nil
  show ?case by simp
next
  case (Cons v vs)
  have "fold (\<lambda>v h'. header_Add h' k v) (v # vs) h =
        fold (\<lambda>v h'. header_Add h' k v) vs (header_Add h k v)" by simp
  also have "\<dots> = (if vs = [] then header_Add h k v
       else (header_Add h k v)(k \<mapsto>
         (case header_Add h k v k of None \<Rightarrow> [] | Some ws \<Rightarrow> ws) @ vs))"
    by (rule Cons.IH)
  also have "\<dots> = h(k \<mapsto> (case h k of None \<Rightarrow> [] | Some ws \<Rightarrow> ws) @ v # vs)"
    by (auto simp: header_Add_def)
  finally show ?case by simp
qed

lemma copy_one:
  "fold (\<lambda>v h'. header_Add h' k v) vs (header_Del h k) =
     h(k := if vs = [] then None else Some vs)"
  by (simp add: fold_header_Add header_Del_def)

lemma copyHeader_apply:
  assumes "distinct (map fst rh)"
  shows "copyHeader rh h k =
     (case map_of rh k of
        None \<Rightarrow> h k
      | Some vs \<Rightarrow> if vs = [] then None else Some vs)"
  using assms
proof (induction rh arbitrary: h)
  case Nil
  show ?case by (simp add: copyHeader_def)
next
  case (Cons p rh)
  obtain k' vs where p: "p = (k', vs)" by (cases p)
  from Cons.prems p have d: "distinct (map fst rh)" and notin: "k' \<notin> fst ` set rh" by auto
  have step: "copyHeader (p # rh) h = copyHeader rh (h(k' := if vs = [] then None else Some vs))"
    using p by (simp add: copyHeader_def copy_one)
  show ?case
  proof (cases "k = k'")
    case True
    with notin have "map_of rh k = None" by (simp add: map_of_eq_None_iff)
    with Cons.IH [OF d] step True p show ?thesis by simp
  next
    case False
    with Cons.IH [OF d] step p show ?thesis by (simp split: option.splits)
  qed
qed

text \<open>Codes for which \<open>WriteHeader\<close> commits the header.\<close>

definition finalStatus :: "nat \<Rightarrow> bool" where
  "finalStatus c = (c = 101 \<or> (200 \<le> c \<and> c \<le> 999))"

lemma relayResponse_start:
  assumes "\<not> wroteHeader (st_w wd)" and "finalStatus (StatusCode resp)"
  defines "wd2 \<equiv> WriteHeader (StatusCode resp)
     (wd\<lparr>st_w := (st_w wd)\<lparr>hdr := copyHeader (RespHeader resp) (hdr (st_w wd))\<rparr>\<rparr>)"
  shows "wroteHeader (st_w wd2)" and "status (st_w wd2) = StatusCode resp"
    and "sentHeader (st_w wd2) = copyHeader (RespHeader resp) (hdr (st_w wd))"
    and "trace wd2 = trace wd @ [EStatus (StatusCode resp)]"
    and "wbody (st_w wd2) = wbody (st_w wd)" and "st_db wd2 = st_db wd"
    and "isFlusher (st_w wd2) = isFlusher (st_w wd)"
    and "relayResponse e wd resp projectID modelID crb tk =
           (if StatusCode resp \<noteq> 200 then io_Copy (Body resp) wd2
            else if Stream crb then proxySSEResponse e wd2 resp projectID modelID crb tk
            else proxyPlainResponse e wd2 resp projectID modelID)"
  using assms(1,2)
  by (auto simp: wd2_def finalStatus_def WriteHeader_def emit_def relayResponse_def Let_def)


lemma proxyPlainResponse_parsed:
  fixes projectID modelID :: int
  assumes "wroteHeader (st_w wd)" and "\<not> BodyErr resp"
    and "unmarshalResponse e (Body resp) = Some crespb"
  defines "wd' \<equiv> proxyPlainResponse e wd resp projectID modelID"
  shows "trace wd' = trace wd @ [EReadAll, EUnmarshal (Body resp),
           ESaveUsage modelID projectID (TotalTokens (Usage crespb)), EWrite (Body resp)]"
    and "st_db wd' = snd (saveUsage (st_db wd) modelID projectID (TotalTokens (Usage crespb)))"
    and "wbody (st_w wd') = wbody (st_w wd) @ Body resp"
    and "status (st_w wd') = status (st_w wd)"
    and "sentHeader (st_w wd') = sentHeader (st_w wd)"
  using assms(1-3)
  by (simp_all add: wd'_def proxyPlainResponse_def ReadAll_def doSaveUsage_def writer_defs
      split: prod.splits)

lemma proxyPlainResponse_unparsed:
  fixes projectID modelID :: int
  assumes "wroteHeader (st_w wd)" and "\<not> BodyErr resp"
    and "unmarshalResponse e (Body resp) = None"
  defines "wd' \<equiv> proxyPlainResponse e wd resp projectID modelID"
  shows "trace wd' = trace wd @ [EReadAll, EUnmarshal (Body resp),
           EWrite (''failed to parse response'' @ [CHR 0x0A])]"
    and "st_db wd' = st_db wd"
    and "wbody (st_w wd') = wbody (st_w wd) @ ''failed to parse response'' @ [CHR 0x0A]"
    and "status (st_w wd') = status (st_w wd)"
    and "sentHeader (st_w wd') = sentHeader (st_w wd)"
  using assms(1-3)
  by (simp_all add: wd'_def proxyPlainResponse_def ReadAll_def writer_defs)

lemma decodeUsageMembers_none:
  "list_all (\<lambda>(k, v). \<not> equalFoldRight ''total_tokens'' k) us \<Longrightarrow> decodeUsageMembers us u = Some u"
  by (induction us arbitrary: u) auto

text \<open>
  A JSON text without a total-token field: \<open>null\<close>, or an object in which every member
  whose name matches \<open>Usage\<close> is \<open>null\<close> or an object with no member whose name matches
  \<open>total_tokens\<close>.
\<close>

definition usageWithoutTotal :: "json \<Rightarrow> bool" where
  "usageWithoutTotal v =
     (case v of
        JNull \<Rightarrow> True
      | JObject us \<Rightarrow> list_all (\<lambda>(k, v'). \<not> equalFoldRight ''total_tokens'' k) us
      | _ \<Rightarrow> False)"

definition noTotalTokens :: "json \<Rightarrow> bool" where
  "noTotalTokens j =
     (case j of
        JNull \<Rightarrow> True
      | JObject kvs \<Rightarrow> list_all (\<lambda>(k, v). equalFoldRight ''Usage'' k \<longrightarrow> usageWithoutTotal v) kvs
      | _ \<Rightarrow> False)"

lemma decodeUsage_without:
  "usageWithoutTotal v \<Longrightarrow> decodeUsage v u = Some u"
  by (cases v) (simp_all add: usageWithoutTotal_def decodeUsage_def decodeUsageMembers_none)

lemma decodeResponseMembers_without:
  "list_all (\<lambda>(k, v). equalFoldRight ''Usage'' k \<longrightarrow> usageWithoutTotal v) kvs \<Longrightarrow>
   decodeResponseMembers kvs b = Some b"
  by (induction kvs arbitrary: b) (auto simp: decodeUsage_without)

lemma decodeResponseBody_without:
  "noTotalTokens j \<Longrightarrow> decodeResponseBody j = Some zeroResponseBody"
  by (cases j) (simp_all add: noTotalTokens_def decodeResponseBody_def decodeResponseMembers_without)


definition chatRequest :: completionRequestBody where
  "chatRequest =
     \<lparr>Model = ''gpt-x'', Messages = [\<lparr>Content = ''hi''\<rparr>], Suffix = [], Stream = False\<rparr>"

definition jsonHeader :: "(string \<times> string list) list" where
  "jsonHeader = [(''Content-Type'', [''application/json''])]"

definition usageResponse :: response where
  \<open>usageResponse = \<lparr>StatusCode = 200, RespHeader = jsonHeader,
     Body = ''{"usage":{"total_tokens":7}}'', BodyErr = False\<rparr>\<close>

definition noUsageResponse :: response where
  \<open>noUsageResponse = \<lparr>StatusCode = 200, RespHeader = jsonHeader,
     Body = ''{"id":"cmpl-1"}'', BodyErr = False\<rparr>\<close>

definition arrayResponse :: response where
  "arrayResponse = \<lparr>StatusCode = 200, RespHeader = jsonHeader, Body = ''[]'', BodyErr = False\<rparr>"

definition brokenResponse :: response where
  "brokenResponse = \<lparr>StatusCode = 200, RespHeader = [(''Content-Type'', [''text/html''])],
     Body = ''<html>'', BodyErr = False\<rparr>"



lemma fold_id: "\<not> equalFoldRight ''Usage'' ''id''"
  by (simp add: isLetter_def caseMask_def)

lemma sample_decodes:
  "unmarshalResponse (sampleEnv r) (Body usageResponse) = Some \<lparr>Usage = \<lparr>TotalTokens = 7\<rparr>\<rparr>"
  "parseJSON (sampleEnv r) (Body noUsageResponse) = Some (JObject [(''id'', JString ''cmpl-1'')])"
  "parseJSON (sampleEnv r) (Body arrayResponse) = Some (JArray [])"
  "unmarshalResponse (sampleEnv r) (Body arrayResponse) = None"
  "unmarshalResponse (sampleEnv r) (Body brokenResponse) = None"
  by (simp_all add: unmarshalResponse_def sampleEnv_def sampleParse_def usageResponse_def
      noUsageResponse_def arrayResponse_def brokenResponse_def decodeResponseBody_def
      decodeUsage_def decodeInt_def zeroResponseBody_def isLetter_def caseMask_def)

lemma sample_world:
  "\<not> wroteHeader (st_w (handlerEntry c))" "trace (handlerEntry c) = []"
  "wbody (st_w (handlerEntry c)) = []" "st_db (handlerEntry c) = c"
  "usageAccepted resolvedDb 1 1" "usage resolvedDb = []"
  "hdr (st_w (handlerEntry c)) = Map.empty" "written (st_w (handlerEntry c)) = 0"
  "accepted (st_w (handlerEntry c)) = []"
  by (simp_all add: handlerEntry_def newWriter_def usageAccepted_def resolvedDb_def aliceDb_def
      ExecuteTransient_def)


lemma io_Copy_keeps:
  assumes "wroteHeader (st_w wd)"
  shows "\<exists>evs. continues wd (io_Copy bytes wd) evs"
proof (cases "bytes = []")
  case True
  then show ?thesis using continues_refl [OF assms] by (auto simp: io_Copy_def)
next
  case False
  then show ?thesis using continues_Write [OF assms, of bytes] by (auto simp: io_Copy_def)
qed

text \<open>What stays once the header is committed, whatever the relay does afterwards.\<close>

definition keepsHeader :: "world \<Rightarrow> world \<Rightarrow> bool" where
  "keepsHeader wd wd' =
     (status (st_w wd') = status (st_w wd) \<and> sentHeader (st_w wd') = sentHeader (st_w wd) \<and>
      take (length (trace wd)) (trace wd') = trace wd \<and>
      statuses (drop (length (trace wd)) (trace wd')) = [])"

lemma continues_keepsHeader: "continues wd wd' evs \<Longrightarrow> keepsHeader wd wd'"
  by (simp add: continues_def keepsHeader_def)

lemma proxyPlainResponse_keeps:
  assumes "wroteHeader (st_w wd)"
  shows "keepsHeader wd (proxyPlainResponse e wd resp projectID modelID)"
  using assms
  by (auto simp: keepsHeader_def proxyPlainResponse_def ReadAll_def doSaveUsage_def writer_defs
      Let_def split: option.splits prod.splits)

lemma proxySSEResponse_keeps:
  assumes com: "wroteHeader (st_w wd)"
  shows "keepsHeader wd (proxySSEResponse e wd resp projectID modelID crb tk)"
proof (cases "isFlusher (st_w wd)")
  case False
  then show ?thesis
    using continues_keepsHeader [OF continues_http_Error [OF com]]
    by (simp add: proxySSEResponse_def)
next
  case True
  define wd1 where "wd1 = Flush (WriteHeader 200
                     (setHeader ''Connection'' ''keep-alive''
                       (setHeader ''Cache-Control'' ''no-cache''
                         (setHeader ''Content-Type'' ''text/event-stream'' wd))))"
  have k1: "wroteHeader (st_w wd1)" "status (st_w wd1) = status (st_w wd)"
    "sentHeader (st_w wd1) = sentHeader (st_w wd)" "trace wd1 = trace wd @ [EFlush]"
    using com by (simp_all add: wd1_def writer_defs)
  have lift: "keepsHeader wd wd'" if "continues wd1 wd' evs" for wd' evs
    using that k1 by (simp add: continues_def keepsHeader_def)
  obtain r2 wd2 where tm: "tokenizeMessages tk (Messages crb) 0 wd1 = (r2, wd2)"
    by (cases "tokenizeMessages tk (Messages crb) 0 wd1")
  note tr = tokenizeMessages_relay [OF k1(1), where tk = tk and ms = "Messages crb" and n = 0
      and rd = "Body resp"]
  show ?thesis
  proof (cases r2)
    case None
    with tr tm obtain evs where "continues wd1 wd2 evs" by auto
    from lift [OF this] show ?thesis
      using True tm None by (simp add: proxySSEResponse_def wd1_def [symmetric])
  next
    case (Some n)
    with tr tm obtain evsT where cT: "continues wd1 wd2 evsT" by auto
    obtain r3 wd3 where sl: "sseLoop e tk (Body resp) n wd2 = (r3, wd3)"
      by (cases "sseLoop e tk (Body resp) n wd2")
    note lr = sseLoop_relay [OF continues_committed [OF cT], where e = e and tk = tk
        and rd = "Body resp" and n = n]
    show ?thesis
    proof (cases r3)
      case None
      with lr sl obtain evsL where cL: "continues wd2 wd3 evsL" by auto
      from lift [OF continues_trans [OF cT cL]] show ?thesis
        using True tm Some sl None by (simp add: proxySSEResponse_def wd1_def [symmetric])
    next
      case (Some k)
      with lr sl obtain evsL where cL: "continues wd2 wd3 evsL" by auto
      have "keepsHeader wd (doSaveUsage modelID projectID k wd3)"
        using continues_trans [OF cT cL] k1
        by (simp add: continues_def keepsHeader_def doSaveUsage_def emit_def split: prod.splits)
      then show ?thesis
        using True tm \<open>r2 = Some n\<close> sl Some
        by (simp add: proxySSEResponse_def wd1_def [symmetric])
    qed
  qed
qed

lemma relayResponse_header:
  fixes projectID modelID :: int and tk :: codec and crb :: completionRequestBody and e :: env
  assumes fresh: "\<not> wroteHeader (st_w wd)" and fin: "finalStatus (StatusCode resp)"
  defines "wd' \<equiv> relayResponse e wd resp projectID modelID crb tk"
  shows "sentHeader (st_w wd') = copyHeader (RespHeader resp) (hdr (st_w wd))"
    and "status (st_w wd') = StatusCode resp"
    and "statuses (newEvents wd wd') = [StatusCode resp]"
    and "take 1 (newEvents wd wd') = [EStatus (StatusCode resp)]"
proof -
  define wd2 where "wd2 = WriteHeader (StatusCode resp)
     (wd\<lparr>st_w := (st_w wd)\<lparr>hdr := copyHeader (RespHeader resp) (hdr (st_w wd))\<rparr>\<rparr>)"
  note st = relayResponse_start [OF fresh fin, folded wd2_def]
  have "keepsHeader wd2 wd'"
  proof -
    have "keepsHeader wd2 (io_Copy (Body resp) wd2)"
      using io_Copy_keeps [OF st(1)] continues_keepsHeader by blast
    moreover note proxySSEResponse_keeps [OF st(1), of e resp projectID modelID crb tk]
      proxyPlainResponse_keeps [OF st(1), of e resp projectID modelID]
    ultimately show ?thesis
      using st(8) [of e projectID modelID crb tk] by (simp add: wd'_def)
  qed
  then have k: "status (st_w wd') = status (st_w wd2)" "sentHeader (st_w wd') = sentHeader (st_w wd2)"
    "take (length (trace wd2)) (trace wd') = trace wd2"
    "statuses (drop (length (trace wd2)) (trace wd')) = []"
    by (simp_all add: keepsHeader_def)
  obtain evs where evs: "trace wd' = trace wd2 @ evs"
    using k(3) by (metis append_take_drop_id)
  with k(4) have ne: "statuses evs = []" by simp
  from evs st(4) have new: "newEvents wd wd' = EStatus (StatusCode resp) # evs"
    by (simp add: newEvents_def)
  show "sentHeader (st_w wd') = copyHeader (RespHeader resp) (hdr (st_w wd))"
    using k(2) st(3) by simp
  show "status (st_w wd') = StatusCode resp" using k(1) st(2) by simp
  show "statuses (newEvents wd wd') = [StatusCode resp]" using new ne by simp
  show "take 1 (newEvents wd wd') = [EStatus (StatusCode resp)]" using new by simp
qed


lemma relayResponse_unparsed:
  fixes projectID modelID :: int and tk :: codec and crb :: completionRequestBody and e :: env
  assumes "StatusCode resp = 200" and "\<not> Stream crb" and "\<not> BodyErr resp"
    and "unmarshalResponse e (Body resp) = None"
    and "\<not> wroteHeader (st_w wd)"
  defines "wd' \<equiv> relayResponse e wd resp projectID modelID crb tk"
  shows "status (st_w wd') = 200" and "st_db wd' = st_db wd"
    and "wbody (st_w wd') = wbody (st_w wd) @ ''failed to parse response'' @ [CHR 0x0A]"
    and "newEvents wd wd' =
           [EStatus 200, EReadAll, EUnmarshal (Body resp),
            EWrite (''failed to parse response'' @ [CHR 0x0A])]"
proof -
  have fin: "finalStatus (StatusCode resp)" using assms(1) by (simp add: finalStatus_def)
  note st = relayResponse_start [OF assms(5) fin]
  have wd': "wd' = proxyPlainResponse e
      (WriteHeader (StatusCode resp)
        (wd\<lparr>st_w := (st_w wd)\<lparr>hdr := copyHeader (RespHeader resp) (hdr (st_w wd))\<rparr>\<rparr>))
      resp projectID modelID"
    using st(8) [of e projectID modelID crb tk] assms(1,2) by (simp add: wd'_def)
  note pl = proxyPlainResponse_unparsed [OF st(1) assms(3,4), of projectID modelID]
  show "status (st_w wd') = 200" using pl(4) st(2) assms(1) by (simp add: wd')
  show "st_db wd' = st_db wd" using pl(2) st(6) by (simp add: wd')
  show "wbody (st_w wd') = wbody (st_w wd) @ ''failed to parse response'' @ [CHR 0x0A]"
    using pl(3) st(5) by (simp add: wd')
  show "newEvents wd wd' =
           [EStatus 200, EReadAll, EUnmarshal (Body resp),
            EWrite (''failed to parse response'' @ [CHR 0x0A])]"
    using pl(1) st(4) assms(1) by (simp add: wd' newEvents_def)
qed

lemma sample_final:
  "finalStatus (StatusCode usageResponse)" "distinct (map fst (RespHeader usageResponse))"
  "finalStatus (StatusCode sseResponse)" "distinct (map fst (RespHeader sseResponse))"
  by (simp_all add: finalStatus_def usageResponse_def sseResponse_def jsonHeader_def)

section \<open>Resolving user, project and model\<close>

text \<open>The store after get-or-create of a project, and of a model.\<close>

definition withProject :: "db \<Rightarrow> int \<Rightarrow> string \<Rightarrow> db" where
  "withProject c userID name =
     (if (userID, name) \<in> set (map snd (projects c)) then c
      else c\<lparr>projects := projects c @ [(newRowid (map fst (projects c)), userID, name)]\<rparr>)"

lemma fold_last_row:
  "fold (\<lambda>(i, n) _. (i, n, True)) rows z =
     (if rows = [] then z else (fst (last rows), snd (last rows), True))"
  by (induction rows arbitrary: z) (auto split: prod.splits)

lemma fold_last_id: "fold (\<lambda>i _. i) ids z = (if ids = [] then z else last ids)"
  by (induction ids arbitrary: z) auto

lemma ExecuteTransient_ok: "faults c = [] \<Longrightarrow> ExecuteTransient c = (False, c)"
  by (simp add: ExecuteTransient_def)

lemma findUserByKey_found:
  assumes "faults c = []" and "selectUser c apiKey \<noteq> []"
  shows "findUserByKey c apiKey =
           (Inr (fst (last (selectUser c apiKey)), snd (last (selectUser c apiKey)), True), c)"
  using assms by (simp add: findUserByKey_def ExecuteTransient_ok fold_last_row)

lemma selectUser_known:
  assumes "selectUser c apiKey \<noteq> []"
  shows "fst (last (selectUser c apiKey)) \<in> set (map fst (users c))"
proof -
  have "last (selectUser c apiKey) \<in> set (selectUser c apiKey)" using assms by simp
  then obtain i n k where "(i, n, k) \<in> set (users c)" "last (selectUser c apiKey) = (i, n)"
    by (auto simp: selectUser_def)
  then show ?thesis by force
qed

lemma insertProject_ok:
  assumes "userID \<in> set (map fst (users c))"
  shows "insertProject c userID name = Inr (withProject c userID name)"
  using assms by (simp add: insertProject_def withProject_def)

lemma withProject_fields:
  "faults (withProject c u n) = faults c" "users (withProject c u n) = users c"
  "models (withProject c u n) = models c" "usage (withProject c u n) = usage c"
  "poolClosed (withProject c u n) = poolClosed c"
  "(u, n) \<in> set (map snd (projects (withProject c u n)))"
  by (auto simp: withProject_def)

lemma selectProject_nonempty:
  "(u, n) \<in> set (map snd (projects c)) \<Longrightarrow> selectProject c u n \<noteq> []"
  by (force simp: selectProject_def filter_empty_conv)

lemma selectProject_known:
  assumes "selectProject c u n \<noteq> []"
  shows "last (selectProject c u n) \<in> set (map fst (projects c))"
proof -
  have "last (selectProject c u n) \<in> set (selectProject c u n)" using assms by simp
  then show ?thesis by (force simp: selectProject_def)
qed

definition projectIDOf :: "db \<Rightarrow> int \<Rightarrow> string \<Rightarrow> int" where
  "projectIDOf c u n = fold (\<lambda>i _. i) (selectProject (withProject c u n) u n) 0"

lemma getProjectID_ok:
  assumes "faults c = []" and "userID \<in> set (map fst (users c))"
  shows "getProjectID c userID name = (Inr (projectIDOf c userID name), withProject c userID name)"
  using assms
  by (simp add: getProjectID_def ExecuteTransient_ok insertProject_ok withProject_fields
      projectIDOf_def)

lemma projectIDOf_known:
  "projectIDOf c u n \<in> set (map fst (projects (withProject c u n)))"
proof -
  have ne: "selectProject (withProject c u n) u n \<noteq> []"
    by (rule selectProject_nonempty [OF withProject_fields(6)])
  from selectProject_known [OF ne] show ?thesis
    using ne by (simp add: projectIDOf_def fold_last_id)
qed

text \<open>The handler up to the project, for a well-formed call with a known key.\<close>

lemma handler_resolves_project:
  fixes label :: string
  assumes "\<not> poolClosed (st_db wd)" and "faults (st_db wd) = []"
    and "selectUser (st_db wd) apiKey \<noteq> []"
  defines "userID \<equiv> fst (last (selectUser (st_db wd) apiKey))"
  defines "userName \<equiv> snd (last (selectUser (st_db wd) apiKey))"
  defines "wd1 \<equiv> emit (EFindUser apiKey) (emit EPoolGet wd)"
  defines "wd2 \<equiv> emit (EGetProject userID label) (wd1\<lparr>st_db := withProject (st_db wd) userID label\<rparr>)"
  shows "doFindUserByKey apiKey (emit EPoolGet wd) = (Inr (userID, userName, True), wd1)"
    and "doGetProjectID userID label wd1 = (Inr (projectIDOf (st_db wd) userID label), wd2)"
    and "st_w wd2 = st_w wd"
    and "trace wd2 = trace wd @ [EPoolGet, EFindUser apiKey, EGetProject userID label]"
    and "st_db wd2 = withProject (st_db wd) userID label"
proof -
  have f: "findUserByKey (st_db wd) apiKey = (Inr (userID, userName, True), st_db wd)"
    using findUserByKey_found [OF assms(2,3)] by (simp add: userID_def userName_def)
  show "doFindUserByKey apiKey (emit EPoolGet wd) = (Inr (userID, userName, True), wd1)"
    using f by (simp add: doFindUserByKey_def wd1_def emit_def)
  have known: "userID \<in> set (map fst (users (st_db wd)))"
    unfolding userID_def by (rule selectUser_known [OF assms(3)])
  show "doGetProjectID userID label wd1 = (Inr (projectIDOf (st_db wd) userID label), wd2)"
    using getProjectID_ok [OF assms(2) known, of label]
    by (simp add: doGetProjectID_def wd1_def wd2_def emit_def)
  show "st_w wd2 = st_w wd" by (simp add: wd2_def wd1_def emit_def)
  show "trace wd2 = trace wd @ [EPoolGet, EFindUser apiKey, EGetProject userID label]"
    by (simp add: wd2_def wd1_def emit_def)
  show "st_db wd2 = withProject (st_db wd) userID label" by (simp add: wd2_def wd1_def emit_def)
qed


lemma alice_request:
  "Method (aliceRequest q b) = ''POST''" "RawQuery (aliceRequest q b) = q"
  "\<not> ReqBodyErr (aliceRequest q b)" "ReqBody (aliceRequest q b) = b"
  "requestKey (aliceRequest q b) = ''abc''" "projectLabel (aliceRequest q b) = ''<default>''"
  by (simp_all add: aliceRequest_def requestKey_def projectLabel_def header_Get_def
      TrimPrefix_def HasPrefix_def)

lemma alice_db:
  "\<not> poolClosed aliceDb" "faults aliceDb = []" "selectUser aliceDb ''abc'' = [(1, ''alice'')]"
  "projects aliceDb = []" "usage aliceDb = []" "models aliceDb = []"
  by (simp_all add: aliceDb_def selectUser_def)

definition modelIDOf :: "db \<Rightarrow> string \<Rightarrow> int" where
  "modelIDOf c name = fold (\<lambda>i _. i) (selectModel (insertModel c name) name) 0"

lemma insertModel_fields:
  "faults (insertModel c n) = faults c" "users (insertModel c n) = users c"
  "projects (insertModel c n) = projects c" "usage (insertModel c n) = usage c"
  "n \<in> set (map snd (models (insertModel c n)))"
  by (auto simp: insertModel_def)

lemma getModelID_ok:
  assumes "faults c = []"
  shows "getModelID c name = (Inr (modelIDOf c name), insertModel c name)"
  using assms
  by (simp add: getModelID_def ExecuteTransient_ok insertModel_fields modelIDOf_def)

lemma modelIDOf_known: "modelIDOf c n \<in> set (map fst (models (insertModel c n)))"
proof -
  have "n \<in> set (map snd (models (insertModel c n)))" by (rule insertModel_fields(5))
  then have ne: "selectModel (insertModel c n) n \<noteq> []"
    by (force simp: selectModel_def filter_empty_conv)
  then have "last (selectModel (insertModel c n) n) \<in> set (selectModel (insertModel c n) n)"
    by simp
  then have "last (selectModel (insertModel c n) n) \<in> set (map fst (models (insertModel c n)))"
    by (force simp: selectModel_def)
  with ne show ?thesis by (simp add: modelIDOf_def fold_last_id)
qed

text \<open>
  The chat-style handler on a well-formed call with a known key, a store that does not
  fail, a body that decodes, a model the tokenizer library knows and an upstream that
  answers: it resolves project and model and hands the answer to the relay, with the
  response writer untouched and a store that will take the usage row.
\<close>

lemma proxyRequest_reaches_relay:
  fixes e :: env and key :: string
  assumes "Method r = ''POST''" and "RawQuery r = []"
    and "\<not> poolClosed (st_db wd)" and "faults (st_db wd) = []"
    and "selectUser (st_db wd) (requestKey r) \<noteq> []"
    and "\<not> ReqBodyErr r" and "unmarshalRequest e (ReqBody r) = Some crb"
    and "ForModel e (Model crb) = Some tk"
    and "clientDo e (upstreamRequest key r (ReqBody r)) = Inr resp"
  defines "userID \<equiv> fst (last (selectUser (st_db wd) (requestKey r)))"
  defines "c1 \<equiv> withProject (st_db wd) userID (projectLabel r)"
  defines "projectID \<equiv> projectIDOf (st_db wd) userID (projectLabel r)"
  defines "modelID \<equiv> modelIDOf c1 (Model crb)"
  defines "wd7 \<equiv> \<lparr>st_db = insertModel c1 (Model crb), st_w = st_w wd,
      trace = trace wd @ [EPoolGet, EFindUser (requestKey r), EGetProject userID (projectLabel r),
        EReadRequestBody, EUnmarshalRequest (ReqBody r), EForModel (Model crb),
        EGetModel (Model crb), EClientDo]\<rparr>"
  shows "proxyRequest e key r wd = relayResponse e wd7 resp projectID modelID crb tk"
    and "usageAccepted (st_db wd7) modelID projectID"
proof -
  note h = handler_resolves_project(1) [OF assms(3,4,5), folded userID_def]
    handler_resolves_project(2) [OF assms(3,4,5), where label = "projectLabel r",
      folded userID_def]
  have f1: "faults c1 = []" using assms(4) by (simp add: c1_def withProject_fields)
  let ?wd4 = "emit (EForModel (Model crb)) (emit (EUnmarshalRequest (ReqBody r))
      (emit EReadRequestBody
        (emit (EGetProject userID (projectLabel r))
          ((emit (EFindUser (requestKey r)) (emit EPoolGet wd))\<lparr>st_db := c1\<rparr>))))"
  have gm: "doGetModelID (Model crb) ?wd4 =
      (Inr modelID, emit (EGetModel (Model crb)) (?wd4\<lparr>st_db := insertModel c1 (Model crb)\<rparr>))"
    using getModelID_ok [OF f1, of "Model crb"]
    by (simp add: doGetModelID_def emit_def modelID_def)
  have w7: "emit EClientDo (emit (EGetModel (Model crb))
      (?wd4\<lparr>st_db := insertModel c1 (Model crb)\<rparr>)) = wd7"
    by (simp add: wd7_def emit_def)
  show "proxyRequest e key r wd = relayResponse e wd7 resp projectID modelID crb tk"
    using assms(1,2,3,6,7,8,9) h gm w7
    by (simp add: proxyRequest_def ReadAll_def Let_def c1_def [symmetric]
        projectID_def [symmetric])
  have "projectID \<in> set (map fst (projects c1))"
    unfolding projectID_def c1_def by (rule projectIDOf_known)
  moreover have "modelID \<in> set (map fst (models (insertModel c1 (Model crb))))"
    unfolding modelID_def by (rule modelIDOf_known)
  ultimately show "usageAccepted (st_db wd7) modelID projectID"
    using f1 by (simp add: usageAccepted_def wd7_def ExecuteTransient_ok insertModel_fields)
qed


lemma relayResponse_parsed:
  fixes projectID modelID :: int and tk :: codec and crb :: completionRequestBody and e :: env
  assumes "StatusCode resp = 200" and "\<not> Stream crb" and "\<not> BodyErr resp"
    and "unmarshalResponse e (Body resp) = Some crespb"
    and "usageAccepted (st_db wd) modelID projectID"
    and "\<not> wroteHeader (st_w wd)"
  defines "wd' \<equiv> relayResponse e wd resp projectID modelID crb tk"
  shows "usage (st_db wd') = usage (st_db wd) @ [(modelID, projectID, TotalTokens (Usage crespb))]"
    and "projects (st_db wd') = projects (st_db wd)" and "models (st_db wd') = models (st_db wd)"
    and "wbody (st_w wd') = wbody (st_w wd) @ Body resp"
    and "status (st_w wd') = 200"
proof -
  have fin: "finalStatus (StatusCode resp)" using assms(1) by (simp add: finalStatus_def)
  note st = relayResponse_start [OF assms(6) fin]
  have wd': "wd' = proxyPlainResponse e
      (WriteHeader (StatusCode resp)
        (wd\<lparr>st_w := (st_w wd)\<lparr>hdr := copyHeader (RespHeader resp) (hdr (st_w wd))\<rparr>\<rparr>))
      resp projectID modelID"
    using st(8) [of e projectID modelID crb tk] assms(1,2) by (simp add: wd'_def)
  note pl = proxyPlainResponse_parsed [OF st(1) assms(3,4), of projectID modelID]
  show "usage (st_db wd') = usage (st_db wd) @ [(modelID, projectID, TotalTokens (Usage crespb))]"
    using pl(2) st(6) saveUsage_accepted [OF assms(5), of "TotalTokens (Usage crespb)"]
    by (simp add: wd')
  have tables: "projects (snd (saveUsage c m p n)) = projects c \<and>
                models (snd (saveUsage c m p n)) = models c" for c m p n
    by (auto simp: saveUsage_def ExecuteTransient_def split: list.splits bool.splits)
  show "projects (st_db wd') = projects (st_db wd)" using pl(2) st(6) tables by (simp add: wd')
  show "models (st_db wd') = models (st_db wd)" using pl(2) st(6) tables by (simp add: wd')
  show "wbody (st_w wd') = wbody (st_w wd) @ Body resp" using pl(3) st(5) by (simp add: wd')
  show "status (st_w wd') = 200" using pl(4) st(2) assms(1) by (simp add: wd')
qed

text \<open>
  The response writer accepts the body of such an answer, and so the client gets it, when
  the body is no longer than the length the answer's headers declare.
\<close>

lemma relayResponse_parsed_accepted:
  fixes projectID modelID :: int and tk :: codec and crb :: completionRequestBody and e :: env
  assumes "StatusCode resp = 200" and "\<not> Stream crb" and "\<not> BodyErr resp"
    and "unmarshalResponse e (Body resp) = Some crespb"
    and "\<not> wroteHeader (st_w wd)"
    and "fitsDeclared (copyHeader (RespHeader resp) (hdr (st_w wd)))
           (written (st_w wd) + length (Body resp))"
  shows "accepted (st_w (relayResponse e wd resp projectID modelID crb tk)) =
           accepted (st_w wd) @ Body resp"
  using assms
  by (simp add: relayResponse_def proxyPlainResponse_def ReadAll_def doSaveUsage_def writer_defs
      acceptedBytes_def fitsDeclared_def bodyAllowedForStatus_def Let_def
      split: prod.splits option.splits)

lemma alice_resolution:
  "withProject aliceDb 1 ''<default>'' = aliceDb\<lparr>projects := [(1, 1, ''<default>'')]\<rparr>"
  "projectIDOf aliceDb 1 ''<default>'' = 1"
  "insertModel (aliceDb\<lparr>projects := [(1, 1, ''<default>'')]\<rparr>) ''gpt-x'' = resolvedDb"
  "modelIDOf (aliceDb\<lparr>projects := [(1, 1, ''<default>'')]\<rparr>) ''gpt-x'' = 1"
  by (simp_all add: withProject_def projectIDOf_def insertModel_def modelIDOf_def aliceDb_def
      resolvedDb_def selectProject_def selectModel_def newRowid_def)

lemma alice_call:
  "unmarshalRequest (sampleEnv resp) (ReqBody (aliceRequest [] chatBody)) = Some chatRequest"
  "ForModel (sampleEnv resp) (Model chatRequest) = Some byteCodec"
  "clientDo (sampleEnv resp) (upstreamRequest ''sk'' (aliceRequest [] chatBody)
      (ReqBody (aliceRequest [] chatBody))) = Inr resp"
  by (simp_all add: alice_request sampleEnv_def sampleUnmarshalRequest_def chatRequest_def)

text \<open>
  The scenario of the specification: key \<open>abc\<close> is alice's, no project label, a chat
  request for \<open>gpt-x\<close> without streaming, and the upstream answers 200 with 7 total
  tokens. The call creates alice's default project and the model, records one usage row
  of 7 tokens for them, and the client gets status 200 and the upstream's body.
\<close>

lemma scenario_alice_default_project:
  "proxyRequest (sampleEnv usageResponse) ''sk'' (aliceRequest [] chatBody) (handlerEntry aliceDb) =
     relayResponse (sampleEnv usageResponse)
       \<lparr>st_db = resolvedDb, st_w = newWriter True,
        trace = [EPoolGet, EFindUser ''abc'', EGetProject 1 ''<default>'', EReadRequestBody,
          EUnmarshalRequest chatBody, EForModel ''gpt-x'', EGetModel ''gpt-x'', EClientDo]\<rparr>
       usageResponse 1 1 chatRequest byteCodec"
  "usage (st_db (proxyRequest (sampleEnv usageResponse) ''sk'' (aliceRequest [] chatBody)
      (handlerEntry aliceDb))) = [(1, 1, 7)]"
  "projects (st_db (proxyRequest (sampleEnv usageResponse) ''sk'' (aliceRequest [] chatBody)
      (handlerEntry aliceDb))) = [(1, 1, ''<default>'')]"
  "models (st_db (proxyRequest (sampleEnv usageResponse) ''sk'' (aliceRequest [] chatBody)
      (handlerEntry aliceDb))) = [(1, ''gpt-x'')]"
  "status (st_w (proxyRequest (sampleEnv usageResponse) ''sk'' (aliceRequest [] chatBody)
      (handlerEntry aliceDb))) = 200"
  "wbody (st_w (proxyRequest (sampleEnv usageResponse) ''sk'' (aliceRequest [] chatBody)
      (handlerEntry aliceDb))) = Body usageResponse"
proof -
  let ?e = "sampleEnv usageResponse"
  let ?start = "handlerEntry aliceDb"
  let ?relay = "\<lparr>st_db = resolvedDb, st_w = newWriter True,
        trace = [EPoolGet, EFindUser ''abc'', EGetProject 1 ''<default>'', EReadRequestBody,
          EUnmarshalRequest chatBody, EForModel ''gpt-x'', EGetModel ''gpt-x'', EClientDo]\<rparr>"
  have pre: "\<not> poolClosed (st_db ?start)" "faults (st_db ?start) = []"
    "selectUser (st_db ?start) (requestKey (aliceRequest [] chatBody)) \<noteq> []"
    by (simp_all add: sample_world alice_db alice_request)
  note reach = proxyRequest_reaches_relay
    [OF alice_request(1) alice_request(2) pre alice_request(3) alice_call [of usageResponse]]
  show eq: "proxyRequest ?e ''sk'' (aliceRequest [] chatBody) ?start =
      relayResponse ?e ?relay usageResponse 1 1 chatRequest byteCodec"
    using reach(1)
    by (simp add: sample_world alice_db alice_request alice_resolution chatRequest_def
        handlerEntry_def)
  have acc: "usageAccepted (st_db ?relay) 1 1" by (simp add: sample_world)
  have fresh: "\<not> wroteHeader (st_w ?relay)" by (simp add: newWriter_def)
  have ok: "StatusCode usageResponse = 200" "\<not> Stream chatRequest" "\<not> BodyErr usageResponse"
    by (simp_all add: usageResponse_def chatRequest_def)
  note run = relayResponse_parsed
    [OF ok sample_decodes(1) [of usageResponse] acc fresh, where tk = byteCodec]
  show "usage (st_db (proxyRequest ?e ''sk'' (aliceRequest [] chatBody) ?start)) = [(1, 1, 7)]"
    using run(1) by (simp add: eq sample_world)
  show "projects (st_db (proxyRequest ?e ''sk'' (aliceRequest [] chatBody) ?start)) =
      [(1, 1, ''<default>'')]"
    using run(2) by (simp add: eq resolvedDb_def)
  show "models (st_db (proxyRequest ?e ''sk'' (aliceRequest [] chatBody) ?start)) =
      [(1, ''gpt-x'')]"
    using run(3) by (simp add: eq resolvedDb_def)
  show "status (st_w (proxyRequest ?e ''sk'' (aliceRequest [] chatBody) ?start)) = 200"
    using run(5) by (simp add: eq)
  show "wbody (st_w (proxyRequest ?e ''sk'' (aliceRequest [] chatBody) ?start)) =
      Body usageResponse"
    using run(4) by (simp add: eq newWriter_def)
qed

text \<open>
  The same call when the upstream answers 200 with a body that is not JSON: no usage row,
  and the client gets status 200, not 502, with the relay's message as the body.
\<close>

lemma scenario_alice_unparsed_answer:
  "usage (st_db (proxyRequest (sampleEnv brokenResponse) ''sk'' (aliceRequest [] chatBody)
      (handlerEntry aliceDb))) = []"
  "status (st_w (proxyRequest (sampleEnv brokenResponse) ''sk'' (aliceRequest [] chatBody)
      (handlerEntry aliceDb))) = 200"
  "wbody (st_w (proxyRequest (sampleEnv brokenResponse) ''sk'' (aliceRequest [] chatBody)
      (handlerEntry aliceDb))) = ''failed to parse response'' @ [CHR 0x0A]"
proof -
  let ?e = "sampleEnv brokenResponse"
  let ?start = "handlerEntry aliceDb"
  let ?relay = "\<lparr>st_db = resolvedDb, st_w = newWriter True,
        trace = [EPoolGet, EFindUser ''abc'', EGetProject 1 ''<default>'', EReadRequestBody,
          EUnmarshalRequest chatBody, EForModel ''gpt-x'', EGetModel ''gpt-x'', EClientDo]\<rparr>"
  have pre: "\<not> poolClosed (st_db ?start)" "faults (st_db ?start) = []"
    "selectUser (st_db ?start) (requestKey (aliceRequest [] chatBody)) \<noteq> []"
    by (simp_all add: sample_world alice_db alice_request)
  note reach = proxyRequest_reaches_relay
    [OF alice_request(1) alice_request(2) pre alice_request(3) alice_call [of brokenResponse]]
  have eq: "proxyRequest ?e ''sk'' (aliceRequest [] chatBody) ?start =
      relayResponse ?e ?relay brokenResponse 1 1 chatRequest byteCodec"
    using reach(1)
    by (simp add: sample_world alice_db alice_request alice_resolution chatRequest_def
        handlerEntry_def)
  have fresh: "\<not> wroteHeader (st_w ?relay)" by (simp add: newWriter_def)
  have ok: "StatusCode brokenResponse = 200" "\<not> Stream chatRequest" "\<not> BodyErr brokenResponse"
    by (simp_all add: brokenResponse_def chatRequest_def)
  note run = relayResponse_unparsed
    [OF ok sample_decodes(5) [of brokenResponse] fresh, where projectID = 1 and modelID = 1
      and tk = byteCodec]
  show "usage (st_db (proxyRequest ?e ''sk'' (aliceRequest [] chatBody) ?start)) = []"
    using run(2) by (simp add: eq sample_world)
  show "status (st_w (proxyRequest ?e ''sk'' (aliceRequest [] chatBody) ?start)) = 200"
    using run(1) by (simp add: eq)
  show "wbody (st_w (proxyRequest ?e ''sk'' (aliceRequest [] chatBody) ?start)) =
      ''failed to parse response'' @ [CHR 0x0A]"
    using run(3) by (simp add: eq newWriter_def)
qed

section \<open>The properties of the specification\<close>

text \<open>
  C1. A streaming 200 response: the prompt fragments tokenize to \<open>pids\<close> (P tokens in
  all), the stream is delta blocks whose contents tokenize to D tokens in all, then the
  block of the sentinel \<open>[DONE]\<close> (and whatever follows it). When the writer can flush
  and the store takes the row, the relay adds exactly one usage row, with P + D tokens.
  The trace of the relay shows the order: the prompt is tokenized before the first read,
  and the usage is saved last, after the sentinel's block has been read.
\<close>

theorem streaming_usage_is_prompt_plus_deltas:
  fixes projectID modelID :: int
  assumes "isFlusher (st_w wd)"
    and "map (\<lambda>m. tk (Content m)) (Messages crb) = map Some pids"
    and "list_all (deltaBlock e tk) blks"
    and "wellFormedLines dn" and "blockMessage dn = ''[DONE]''"
    and "Body resp = streamBytes blks @ sseBlock dn @ rest"
    and "usageAccepted (st_db wd) modelID projectID"
  defines "n \<equiv> int (sum_list (map length pids) + deltaTokens blks)"
  defines "wd' \<equiv> proxySSEResponse e wd resp projectID modelID crb tk"
  shows "usage (st_db wd') = usage (st_db wd) @ [(modelID, projectID, n)] \<and>
         newEvents wd wd' =
           (if wroteHeader (st_w wd) then [] else [EStatus 200]) @ [EFlush] @
           map (\<lambda>m. EEncode (Content m)) (Messages crb) @
           concat (map deltaEvents blks) @ blockEvents dn @
           [ESaveUsage modelID projectID n]"
proof -
  note run = proxySSEResponse_stream [OF assms(1-6), of projectID modelID]
  have "usage (st_db wd') = usage (st_db wd) @ [(modelID, projectID, n)]"
    using run(2) saveUsage_accepted [OF assms(7), of n] by (simp add: wd'_def n_def)
  moreover have "newEvents wd wd' =
           (if wroteHeader (st_w wd) then [] else [EStatus 200]) @ [EFlush] @
           map (\<lambda>m. EEncode (Content m)) (Messages crb) @
           concat (map deltaEvents blks) @ blockEvents dn @
           [ESaveUsage modelID projectID n]"
    using run(1) by (simp add: wd'_def n_def newEvents_def)
  ultimately show ?thesis by simp
qed

theorem streaming_usage_is_prompt_plus_deltas_witness:
  "usage (st_db (proxySSEResponse (sampleEnv sseResponse) (handlerEntry resolvedDb) sseResponse
            1 1 chatStreamRequest byteCodec)) = [(1, 1, 7)] \<and>
   newEvents (handlerEntry resolvedDb)
     (proxySSEResponse (sampleEnv sseResponse) (handlerEntry resolvedDb) sseResponse
            1 1 chatStreamRequest byteCodec) =
     [EStatus 200, EFlush, EEncode ''hi'',
      EReadString (helloLine @ [CHR 0x0A]), EWrite (helloLine @ [CHR 0x0A]), EFlush,
      EReadString [CHR 0x0A], EWrite [CHR 0x0A], EFlush,
      EUnmarshal deltaHello, EEncode ''Hello'',
      EReadString (doneLine @ [CHR 0x0A]), EWrite (doneLine @ [CHR 0x0A]), EFlush,
      EReadString [CHR 0x0A], EWrite [CHR 0x0A], EFlush,
      ESaveUsage 1 1 7]"
  using streaming_usage_is_prompt_plus_deltas
    [OF sample_stream(1-3) sample_lines(2) sample_payloads(2) sample_stream(4,5)]
  by (simp add: helloBlocks_def deltaTokens_def deltaEvents_def blockEvents_def lineEvents_def
      sample_payloads chatStreamRequest_def handlerEntry_def newWriter_def resolvedDb_def
      aliceDb_def)

text \<open>
  C2. In the streaming relay every line read from the upstream body is written to the
  client and flushed at once, before anything else is done with it and before the next
  read; the lines read are the first lines of the upstream body in its order, and what the
  client gets is these lines in that order (after them at most one error message of the
  relay itself). This holds for every run of the relay, whatever the upstream sends.
\<close>

theorem sse_lines_relayed_in_order:
  fixes e wd resp projectID modelID crb tk
  defines "wd' \<equiv> proxySSEResponse e wd resp projectID modelID crb tk"
  defines "evs \<equiv> newEvents wd wd'"
  shows "trace wd' = trace wd @ evs \<and>
         relayedAtOnce evs \<and>
         readsFrom (Body resp) (linesRead evs) \<and>
         take (length (linesRead evs)) (writes evs) = linesRead evs \<and>
         length (writes evs) \<le> Suc (length (linesRead evs)) \<and>
         wbody (st_w wd') = wbody (st_w wd) @ concat (writes evs)"
proof -
  from proxySSEResponse_relay [of e wd resp projectID modelID crb tk]
  obtain evs' where t: "trace wd' = trace wd @ evs'" and r: "relayTrace (Body resp) evs'"
    and b: "wbody (st_w wd') = wbody (st_w wd) @ concat (writes evs')"
    unfolding wd'_def by blast
  have "evs = evs'" using t by (simp add: evs_def newEvents_def)
  with t r b relayTrace_relayedAtOnce [OF r] relayTrace_readsFrom [OF r] relayTrace_writes [OF r]
  show ?thesis by simp
qed

theorem sse_lines_relayed_in_order_witness:
  "relayedAtOnce (newEvents (handlerEntry resolvedDb)
     (proxySSEResponse (sampleEnv sseResponse) (handlerEntry resolvedDb) sseResponse
        1 1 chatStreamRequest byteCodec)) \<and>
   linesRead (newEvents (handlerEntry resolvedDb)
     (proxySSEResponse (sampleEnv sseResponse) (handlerEntry resolvedDb) sseResponse
        1 1 chatStreamRequest byteCodec)) =
     [helloLine @ [CHR 0x0A], [CHR 0x0A], doneLine @ [CHR 0x0A], [CHR 0x0A]] \<and>
   wbody (st_w (proxySSEResponse (sampleEnv sseResponse) (handlerEntry resolvedDb) sseResponse
        1 1 chatStreamRequest byteCodec)) = sseBody"
proof -
  let ?start = "handlerEntry resolvedDb"
  let ?w = "proxySSEResponse (sampleEnv sseResponse) ?start sseResponse 1 1 chatStreamRequest byteCodec"
  note run = proxySSEResponse_stream
    [OF sample_stream(1-3) sample_lines(2) sample_payloads(2) sample_stream(4), of 1 1]
  have "trace ?start = []" by (simp add: handlerEntry_def)
  with run(1) have ev: "linesRead (newEvents ?start ?w) =
      [helloLine @ [CHR 0x0A], [CHR 0x0A], doneLine @ [CHR 0x0A], [CHR 0x0A]]"
    by (simp add: newEvents_def helloBlocks_def deltaEvents_def blockEvents_def lineEvents_def
        linesRead_def)
  have body: "wbody (st_w ?w) = sseBody"
    using run(3)
    by (simp add: handlerEntry_def newWriter_def streamBytes_def sseBlock_def helloBlocks_def
        sseBody_def)
  from sse_lines_relayed_in_order
    [of "sampleEnv sseResponse" ?start sseResponse 1 1 chatStreamRequest byteCodec]
  have "relayedAtOnce (newEvents ?start ?w)" by simp
  with ev body show ?thesis by simp
qed

text \<open>
  C3. A 200 answer to a non-streaming request whose body decodes with the total-token
  field N: when the store takes the row, exactly one usage row with N tokens is added,
  and the body handed to the client is the buffered upstream body, byte for byte. The
  relay does nothing else: status, read, decode, save, write.
\<close>

theorem plain_200_records_total_tokens:
  fixes projectID modelID :: int and tk :: codec
  assumes "StatusCode resp = 200" and "\<not> Stream crb" and "\<not> BodyErr resp"
    and "unmarshalResponse e (Body resp) = Some crespb"
    and "usageAccepted (st_db wd) modelID projectID"
    and "\<not> wroteHeader (st_w wd)"
  defines "N \<equiv> TotalTokens (Usage crespb)"
  defines "wd' \<equiv> relayResponse e wd resp projectID modelID crb tk"
  shows "usage (st_db wd') = usage (st_db wd) @ [(modelID, projectID, N)] \<and>
         wbody (st_w wd') = wbody (st_w wd) @ Body resp \<and>
         status (st_w wd') = 200 \<and>
         newEvents wd wd' =
           [EStatus 200, EReadAll, EUnmarshal (Body resp), ESaveUsage modelID projectID N,
            EWrite (Body resp)]"
proof -
  have fin: "finalStatus (StatusCode resp)" using assms(1) by (simp add: finalStatus_def)
  note st = relayResponse_start [OF assms(6) fin]
  have wd': "wd' = proxyPlainResponse e
      (WriteHeader (StatusCode resp)
        (wd\<lparr>st_w := (st_w wd)\<lparr>hdr := copyHeader (RespHeader resp) (hdr (st_w wd))\<rparr>\<rparr>))
      resp projectID modelID"
    using st(8) [of e projectID modelID crb tk] assms(1,2) by (simp add: wd'_def)
  note pl = proxyPlainResponse_parsed [OF st(1) assms(3,4), of projectID modelID]
  show ?thesis
    using pl st(2,4,5,6) saveUsage_accepted [OF assms(5), of N] assms(1)
    by (simp add: wd' N_def newEvents_def)
qed

theorem plain_200_records_total_tokens_witness:
  "usage (st_db (relayResponse (sampleEnv usageResponse) (handlerEntry resolvedDb) usageResponse
            1 1 chatRequest byteCodec)) = [(1, 1, 7)] \<and>
   wbody (st_w (relayResponse (sampleEnv usageResponse) (handlerEntry resolvedDb) usageResponse
            1 1 chatRequest byteCodec)) = Body usageResponse \<and>
   status (st_w (relayResponse (sampleEnv usageResponse) (handlerEntry resolvedDb) usageResponse
            1 1 chatRequest byteCodec)) = 200"
  using plain_200_records_total_tokens
    [of usageResponse chatRequest "sampleEnv usageResponse" "\<lparr>Usage = \<lparr>TotalTokens = 7\<rparr>\<rparr>"
        "handlerEntry resolvedDb" 1 1 byteCodec]
  by (simp add: sample_decodes sample_world) (simp add: usageResponse_def chatRequest_def)

text \<open>
  C4. The response writer as the server hands it to the handler has an empty header map
  and has sent nothing, and the handler touches it before the relay only to answer an
  error and return. For such a writer and an upstream status that commits the header (101
  or 200..999): the headers sent to the client are the upstream's and no other, under each
  name the upstream's values (a name without a value, which no parsed answer has, is no
  header). The upstream's status is committed exactly once, as the first thing the relay
  does, before any body byte, on the streaming path too: what the streaming relay sets
  and writes as header afterwards has no effect.
\<close>

theorem upstream_headers_sent_status_once:
  fixes projectID modelID :: int and tk :: codec and crb :: completionRequestBody and e :: env
  assumes "hdr (st_w wd) = Map.empty" and "\<not> wroteHeader (st_w wd)"
    and "finalStatus (StatusCode resp)" and "distinct (map fst (RespHeader resp))"
  defines "wd' \<equiv> relayResponse e wd resp projectID modelID crb tk"
  shows "sentHeader (st_w wd') k =
           (case map_of (RespHeader resp) k of
              None \<Rightarrow> None
            | Some vs \<Rightarrow> if vs = [] then None else Some vs) \<and>
         status (st_w wd') = StatusCode resp \<and>
         statuses (newEvents wd wd') = [StatusCode resp] \<and>
         take 1 (newEvents wd wd') = [EStatus (StatusCode resp)]"
  using relayResponse_header [OF assms(2,3), of e projectID modelID crb tk]
    copyHeader_apply [OF assms(4), of Map.empty k]
  by (simp add: wd'_def assms(1))

theorem upstream_headers_sent_status_once_witness:
  "sentHeader (st_w (relayResponse (sampleEnv sseResponse) (handlerEntry resolvedDb) sseResponse
      1 1 chatStreamRequest byteCodec)) ''Content-Type'' = Some [''text/event-stream''] \<and>
   sentHeader (st_w (relayResponse (sampleEnv sseResponse) (handlerEntry resolvedDb) sseResponse
      1 1 chatStreamRequest byteCodec)) ''Cache-Control'' = None \<and>
   status (st_w (relayResponse (sampleEnv sseResponse) (handlerEntry resolvedDb) sseResponse
      1 1 chatStreamRequest byteCodec)) = 200 \<and>
   statuses (newEvents (handlerEntry resolvedDb)
     (relayResponse (sampleEnv sseResponse) (handlerEntry resolvedDb) sseResponse
      1 1 chatStreamRequest byteCodec)) = [200]"
proof -
  note fresh = sample_world(7,1) [of resolvedDb]
  note th = upstream_headers_sent_status_once [OF fresh sample_final(3,4),
      where e = "sampleEnv sseResponse" and projectID = 1 and modelID = 1
        and crb = chatStreamRequest and tk = byteCodec]
  from th [of "''Content-Type''"] th [of "''Cache-Control''"]
  show ?thesis by (simp add: sseResponse_def)
qed




text \<open>
  C6, what the code does. On the non-streaming 200 path a body that does not decode
  leaves the store alone (no usage row) and no body byte has gone out before the failure.
  But the upstream's status 200 is committed before the body is read (line 283), so the
  502 that \<open>http.Error\<close> asks for has no effect: the client gets status 200 with the
  upstream's headers and the text of the error as the body.
\<close>

theorem parse_failure_after_status_200:
  fixes projectID modelID :: int and tk :: codec and crb :: completionRequestBody and e :: env
  assumes "StatusCode resp = 200" and "\<not> Stream crb" and "\<not> BodyErr resp"
    and "unmarshalResponse e (Body resp) = None"
    and "\<not> wroteHeader (st_w wd)"
  defines "wd' \<equiv> relayResponse e wd resp projectID modelID crb tk"
  shows "status (st_w wd') = 200 \<and> st_db wd' = st_db wd \<and>
         wbody (st_w wd') = wbody (st_w wd) @ ''failed to parse response'' @ [CHR 0x0A] \<and>
         newEvents wd wd' =
           [EStatus 200, EReadAll, EUnmarshal (Body resp),
            EWrite (''failed to parse response'' @ [CHR 0x0A])]"
  using relayResponse_unparsed [OF assms(1-5), of projectID modelID tk]
  by (simp add: wd'_def)

theorem parse_failure_after_status_200_witness:
  "status (st_w (relayResponse (sampleEnv brokenResponse) (handlerEntry resolvedDb) brokenResponse
      1 1 chatRequest byteCodec)) = 200 \<and>
   usage (st_db (relayResponse (sampleEnv brokenResponse) (handlerEntry resolvedDb) brokenResponse
      1 1 chatRequest byteCodec)) = [] \<and>
   wbody (st_w (relayResponse (sampleEnv brokenResponse) (handlerEntry resolvedDb) brokenResponse
      1 1 chatRequest byteCodec)) = ''failed to parse response'' @ [CHR 0x0A]"
proof -
  have pre: "StatusCode brokenResponse = 200" "\<not> Stream chatRequest" "\<not> BodyErr brokenResponse"
    by (simp_all add: brokenResponse_def chatRequest_def)
  from parse_failure_after_status_200
    [OF pre sample_decodes(5) [of brokenResponse] sample_world(1) [of resolvedDb],
      where projectID = 1 and modelID = 1 and tk = byteCodec]
  show ?thesis by (simp add: sample_world)
qed

text \<open>
  C7. A request whose URL carries a query string is rejected as a bad request before the
  storage is touched: the store is what it was (no project row, no model row), and the
  call does nothing but send status 400 and the message. This holds for both handlers.
\<close>

theorem query_rejected_before_storage:
  assumes "RawQuery r \<noteq> []" and "\<not> wroteHeader (st_w wd)"
  shows "st_db (proxyRequest e key r wd) = st_db wd \<and>
         status (st_w (proxyRequest e key r wd)) = 400 \<and>
         trace (proxyRequest e key r wd) =
           trace wd @ [EStatus 400,
             EWrite ((if Method r \<noteq> ''POST'' then ''Only POST requests are supported''
                      else ''Query parameters are not supported'') @ [CHR 0x0A])] \<and>
         proxyRequestPrompt e key r wd = proxyRequest e key r wd"
  using assms by (simp add: proxyRequest_def proxyRequestPrompt_def writer_defs)

theorem query_rejected_before_storage_witness:
  "st_db (proxyRequest (sampleEnv noResponse) ''sk'' (aliceRequest ''debug=1'' chatBody)
            (handlerEntry aliceDb)) = aliceDb \<and>
   status (st_w (proxyRequest (sampleEnv noResponse) ''sk'' (aliceRequest ''debug=1'' chatBody)
            (handlerEntry aliceDb))) = 400 \<and>
   trace (proxyRequest (sampleEnv noResponse) ''sk'' (aliceRequest ''debug=1'' chatBody)
            (handlerEntry aliceDb)) =
     [EStatus 400, EWrite (''Query parameters are not supported'' @ [CHR 0x0A])]"
  using query_rejected_before_storage
    [of "aliceRequest ''debug=1'' chatBody" "handlerEntry aliceDb" "sampleEnv noResponse" "''sk''"]
  by (simp add: aliceRequest_def handlerEntry_def newWriter_def)

text \<open>
  C8. A POST without query string that carries a known key, on a store that does not
  fail, with a readable body that does not decode: the call is rejected with status 400,
  and by then the project has been resolved. The trace shows the get-or-create of the
  project before the body is read and decoded, and the store holds the project row
  afterwards: it is created by this call when it was not there.
\<close>

theorem malformed_body_leaves_project_row:
  fixes e :: env and key :: string
  assumes "Method r = ''POST''" and "RawQuery r = []"
    and "\<not> poolClosed (st_db wd)" and "faults (st_db wd) = []"
    and "selectUser (st_db wd) (requestKey r) \<noteq> []"
    and "\<not> ReqBodyErr r" and "unmarshalRequest e (ReqBody r) = None"
    and "\<not> wroteHeader (st_w wd)"
  defines "userID \<equiv> fst (last (selectUser (st_db wd) (requestKey r)))"
  defines "wd' \<equiv> proxyRequest e key r wd"
  shows "status (st_w wd') = 400 \<and>
         newEvents wd wd' =
           [EPoolGet, EFindUser (requestKey r), EGetProject userID (projectLabel r),
            EReadRequestBody, EUnmarshalRequest (ReqBody r), EStatus 400,
            EWrite (''failed to parse request body'' @ [CHR 0x0A])] \<and>
         (userID, projectLabel r) \<in> set (map snd (projects (st_db wd'))) \<and>
         projects (st_db wd') =
           (if (userID, projectLabel r) \<in> set (map snd (projects (st_db wd)))
            then projects (st_db wd)
            else projects (st_db wd) @
                   [(newRowid (map fst (projects (st_db wd))), userID, projectLabel r)])"
proof -
  note h = handler_resolves_project(1) [OF assms(3,4,5), folded userID_def]
    handler_resolves_project(2) [OF assms(3,4,5), where label = "projectLabel r",
      folded userID_def]
  have run: "wd' = http_Error ''failed to parse request body'' 400
      (emit (EUnmarshalRequest (ReqBody r)) (emit EReadRequestBody
        (emit (EGetProject userID (projectLabel r))
          ((emit (EFindUser (requestKey r)) (emit EPoolGet wd))
             \<lparr>st_db := withProject (st_db wd) userID (projectLabel r)\<rparr>))))"
    using assms(1,2,3,6,7) h(1,2)
    by (simp add: wd'_def proxyRequest_def ReadAll_def Let_def)
  have fresh: "\<not> wroteHeader (st_w wd)" by (rule assms(8))
  show ?thesis
    using fresh withProject_fields(6) [of userID "projectLabel r" "st_db wd"]
    by (simp add: run newEvents_def writer_defs)
       (simp add: withProject_def)
qed

theorem malformed_body_leaves_project_row_witness:
  "status (st_w (proxyRequest (sampleEnv noResponse) ''sk'' (aliceRequest [] ''{bad'')
      (handlerEntry aliceDb))) = 400 \<and>
   projects (st_db (proxyRequest (sampleEnv noResponse) ''sk'' (aliceRequest [] ''{bad'')
      (handlerEntry aliceDb))) = [(1, 1, ''<default>'')] \<and>
   newEvents (handlerEntry aliceDb)
     (proxyRequest (sampleEnv noResponse) ''sk'' (aliceRequest [] ''{bad'')
      (handlerEntry aliceDb)) =
     [EPoolGet, EFindUser ''abc'', EGetProject 1 ''<default>'', EReadRequestBody,
      EUnmarshalRequest ''{bad'', EStatus 400,
      EWrite (''failed to parse request body'' @ [CHR 0x0A])]"
proof -
  have bad: "unmarshalRequest (sampleEnv noResponse) (ReqBody (aliceRequest [] ''{bad'')) = None"
    by (simp add: alice_request sampleEnv_def sampleUnmarshalRequest_def chatBody_def
        chatStreamBody_def)
  have pre: "\<not> poolClosed (st_db (handlerEntry aliceDb))" "faults (st_db (handlerEntry aliceDb)) = []"
    "selectUser (st_db (handlerEntry aliceDb)) (requestKey (aliceRequest [] ''{bad'')) \<noteq> []"
    by (simp_all add: sample_world alice_db alice_request)
  from malformed_body_leaves_project_row
    [OF alice_request(1) alice_request(2) pre alice_request(3) bad sample_world(1),
      where key = "''sk''"]
  show ?thesis
    by (simp add: sample_world alice_db alice_request newRowid_def)
qed

text \<open>
  C9, as the code has it. The specification's sentence is about every body that is valid
  JSON and has no total-token field. The body \<open>[]\<close> is such a body, and decoding it into the response
  struct is an error: no usage row is written.
\<close>

theorem json_array_yields_no_usage_row:
  "parseJSON (sampleEnv arrayResponse) (Body arrayResponse) = Some (JArray []) \<and>
   usage (st_db (relayResponse (sampleEnv arrayResponse) (handlerEntry resolvedDb) arrayResponse
      1 1 chatRequest byteCodec)) = [] \<and>
   newEvents (handlerEntry resolvedDb)
     (relayResponse (sampleEnv arrayResponse) (handlerEntry resolvedDb) arrayResponse
      1 1 chatRequest byteCodec) =
     [EStatus 200, EReadAll, EUnmarshal (Body arrayResponse),
      EWrite (''failed to parse response'' @ [CHR 0x0A])]"
proof -
  have pre: "StatusCode arrayResponse = 200" "\<not> Stream chatRequest" "\<not> BodyErr arrayResponse"
    by (simp_all add: arrayResponse_def chatRequest_def)
  note run = relayResponse_unparsed
    [OF pre sample_decodes(4) [of arrayResponse] sample_world(1) [of resolvedDb],
      where projectID = 1 and modelID = 1 and tk = byteCodec]
  from run(2,4) sample_decodes(3) [of arrayResponse]
  show ?thesis by (simp add: sample_world)
qed

text \<open>
  C9, amended. A 200 answer to a non-streaming request whose body is a JSON object (or
  \<open>null\<close>) without a total-token field: no member named usage, or usage members that are
  \<open>null\<close> or objects without a member named total_tokens. The decoded count is zero, and
  when the store takes the row exactly one usage row with 0 tokens is added; the body
  goes to the client unchanged.
\<close>

theorem missing_total_tokens_records_zero:
  fixes projectID modelID :: int and tk :: codec and crb :: completionRequestBody and e :: env
  assumes "StatusCode resp = 200" and "\<not> Stream crb" and "\<not> BodyErr resp"
    and "parseJSON e (Body resp) = Some j" and "noTotalTokens j"
    and "usageAccepted (st_db wd) modelID projectID"
    and "\<not> wroteHeader (st_w wd)"
  defines "wd' \<equiv> relayResponse e wd resp projectID modelID crb tk"
  shows "usage (st_db wd') = usage (st_db wd) @ [(modelID, projectID, 0)] \<and>
         wbody (st_w wd') = wbody (st_w wd) @ Body resp \<and>
         newEvents wd wd' =
           [EStatus 200, EReadAll, EUnmarshal (Body resp), ESaveUsage modelID projectID 0,
            EWrite (Body resp)]"
proof -
  have um: "unmarshalResponse e (Body resp) = Some zeroResponseBody"
    using assms(4,5) by (simp add: unmarshalResponse_def decodeResponseBody_without)
  have fin: "finalStatus (StatusCode resp)" using assms(1) by (simp add: finalStatus_def)
  note st = relayResponse_start [OF assms(7) fin]
  have wd': "wd' = proxyPlainResponse e
      (WriteHeader (StatusCode resp)
        (wd\<lparr>st_w := (st_w wd)\<lparr>hdr := copyHeader (RespHeader resp) (hdr (st_w wd))\<rparr>\<rparr>))
      resp projectID modelID"
    using st(8) [of e projectID modelID crb tk] assms(1,2) by (simp add: wd'_def)
  note pl = proxyPlainResponse_parsed [OF st(1) assms(3) um, of projectID modelID]
  show ?thesis
    using pl st(4,5,6) saveUsage_accepted [OF assms(6), of 0] assms(1)
    by (simp add: wd' newEvents_def zeroResponseBody_def)
qed

theorem missing_total_tokens_records_zero_witness:
  "usage (st_db (relayResponse (sampleEnv noUsageResponse) (handlerEntry resolvedDb)
      noUsageResponse 1 1 chatRequest byteCodec)) = [(1, 1, 0)] \<and>
   wbody (st_w (relayResponse (sampleEnv noUsageResponse) (handlerEntry resolvedDb)
      noUsageResponse 1 1 chatRequest byteCodec)) = Body noUsageResponse"
proof -
  have nt: "noTotalTokens (JObject [(''id'', JString ''cmpl-1'')])"
    by (simp add: noTotalTokens_def fold_id)
  have pre: "StatusCode noUsageResponse = 200" "\<not> Stream chatRequest" "\<not> BodyErr noUsageResponse"
    by (simp_all add: noUsageResponse_def chatRequest_def)
  have acc: "usageAccepted (st_db (handlerEntry resolvedDb)) 1 1"
    by (simp add: sample_world)
  from missing_total_tokens_records_zero
    [OF pre sample_decodes(2) [of noUsageResponse] nt acc sample_world(1) [of resolvedDb],
      where tk = byteCodec]
  show ?thesis by (simp add: sample_world)
qed

text \<open>
  C10. The prompt-style handler: a POST without query string with a known key, on a store
  that does not fail, whose body decodes with the streaming flag set. The call is
  rejected with status 400 right after decoding: the trace ends there, with no tokenizer
  lookup, no model resolution and no upstream call, and the store has no new model and no
  new usage row.
\<close>

theorem prompt_stream_rejected_before_upstream:
  fixes e :: env and key :: string
  assumes "Method r = ''POST''" and "RawQuery r = []"
    and "\<not> poolClosed (st_db wd)" and "faults (st_db wd) = []"
    and "selectUser (st_db wd) (requestKey r) \<noteq> []"
    and "\<not> ReqBodyErr r" and "unmarshalPromptRequest e (ReqBody r) = Some crb"
    and "pStream crb"
    and "\<not> wroteHeader (st_w wd)"
  defines "userID \<equiv> fst (last (selectUser (st_db wd) (requestKey r)))"
  defines "wd' \<equiv> proxyRequestPrompt e key r wd"
  shows "status (st_w wd') = 400 \<and>
         newEvents wd wd' =
           [EPoolGet, EFindUser (requestKey r), EGetProject userID (projectLabel r),
            EReadRequestBody, EUnmarshalRequest (ReqBody r), EStatus 400,
            EWrite (''streaming responses are not yet supported'' @ [CHR 0x0A])] \<and>
         usage (st_db wd') = usage (st_db wd) \<and> models (st_db wd') = models (st_db wd)"
proof -
  note h = handler_resolves_project(1) [OF assms(3,4,5), folded userID_def]
    handler_resolves_project(2) [OF assms(3,4,5), where label = "projectLabel r",
      folded userID_def]
  have run: "wd' = http_Error ''streaming responses are not yet supported'' 400
      (emit (EUnmarshalRequest (ReqBody r)) (emit EReadRequestBody
        (emit (EGetProject userID (projectLabel r))
          ((emit (EFindUser (requestKey r)) (emit EPoolGet wd))
             \<lparr>st_db := withProject (st_db wd) userID (projectLabel r)\<rparr>))))"
    using assms(1,2,3,6,7,8) h(1,2)
    by (simp add: wd'_def proxyRequestPrompt_def ReadAll_def Let_def)
  have fresh: "\<not> wroteHeader (st_w wd)" by (rule assms(9))
  show ?thesis
    using fresh by (simp add: run newEvents_def writer_defs withProject_fields)
qed

theorem prompt_stream_rejected_before_upstream_witness:
  "status (st_w (proxyRequestPrompt (sampleEnv noResponse) ''sk'' (aliceRequest [] promptStreamBody)
      (handlerEntry aliceDb))) = 400 \<and>
   usage (st_db (proxyRequestPrompt (sampleEnv noResponse) ''sk''
      (aliceRequest [] promptStreamBody) (handlerEntry aliceDb))) = [] \<and>
   models (st_db (proxyRequestPrompt (sampleEnv noResponse) ''sk''
      (aliceRequest [] promptStreamBody) (handlerEntry aliceDb))) = [] \<and>
   newEvents (handlerEntry aliceDb)
     (proxyRequestPrompt (sampleEnv noResponse) ''sk'' (aliceRequest [] promptStreamBody)
      (handlerEntry aliceDb)) =
     [EPoolGet, EFindUser ''abc'', EGetProject 1 ''<default>'', EReadRequestBody,
      EUnmarshalRequest promptStreamBody, EStatus 400,
      EWrite (''streaming responses are not yet supported'' @ [CHR 0x0A])]"
proof -
  have dec: "unmarshalPromptRequest (sampleEnv noResponse)
      (ReqBody (aliceRequest [] promptStreamBody)) =
      Some \<lparr>pModel = ''gpt-x'', Prompt = ''hi'', pSuffix = [], pStream = True\<rparr>"
    by (simp add: alice_request sampleEnv_def sampleUnmarshalPrompt_def)
  have st: "pStream \<lparr>pModel = ''gpt-x'', Prompt = ''hi'', pSuffix = [], pStream = True\<rparr>"
    by simp
  have pre: "\<not> poolClosed (st_db (handlerEntry aliceDb))" "faults (st_db (handlerEntry aliceDb)) = []"
    "selectUser (st_db (handlerEntry aliceDb)) (requestKey (aliceRequest [] promptStreamBody)) \<noteq> []"
    by (simp_all add: sample_world alice_db alice_request)
  from prompt_stream_rejected_before_upstream
    [OF alice_request(1) alice_request(2) pre alice_request(3) dec st sample_world(1),
      where key = "''sk''"]
  show ?thesis
    by (simp add: sample_world alice_db alice_request)
qed

end
